theory Spec2Isabelle
  imports Complex_Main
begin

section \<open>JavaScript values and library predicates\<close>

text \<open>
  Request parameters reach the handlers as strings. \<open>req.query\<close> is modelled as a partial
  map from parameter names to string values; a parameter that is not in the map is
  \<open>undefined\<close>. A string holds the UTF-8 encoding of its text.
\<close>

type_synonym query = "string \<rightharpoonup> string"

text \<open>\<open>if (v)\<close> for a value that is a string or undefined: the empty string is falsy.\<close>

definition truthy :: "string option \<Rightarrow> bool" where
  "truthy v = (case v of None \<Rightarrow> False | Some s \<Rightarrow> s \<noteq> [])"

subsection \<open>Numbers\<close>

text \<open>
  A JavaScript number is a double. \<open>fl x\<close> is the double nearest to the real \<open>x\<close>, a
  tie going to the even significand: \<open>x\<close> is scaled by the power of two that leaves a
  significand of 53 bits, the exponent not below that of the least normal double, and the
  significand is rounded to an integer. A result beyond the largest double, which is
  infinite for the program, is not modelled.
\<close>

definition pow2 :: "int \<Rightarrow> real" where
  "pow2 i = (if 0 \<le> i then 2 ^ nat i else 1 / 2 ^ nat (- i))"

definition roundHalfEven :: "real \<Rightarrow> int" where
  "roundHalfEven x =
     (let f = \<lfloor>x\<rfloor>; d = x - of_int f
      in if d < 1 / 2 then f else if 1 / 2 < d then f + 1 else if even f then f else f + 1)"

definition exponent :: "real \<Rightarrow> int" where
  "exponent x = max \<lfloor>log 2 \<bar>x\<bar>\<rfloor> (- 1022)"

definition fl :: "real \<Rightarrow> real" where
  "fl x =
     (if x = 0 then 0
      else of_int (roundHalfEven (x / pow2 (exponent x - 52))) * pow2 (exponent x - 52))"

text \<open>The unit roundoff: the relative error of one rounding is at most \<open>eps\<close>.\<close>

definition eps :: real where
  "eps = 1 / 2 ^ 53"

text \<open>
  A number that holds an integer is modelled as an integer. An arithmetic operation on
  numbers is the exact operation followed by the rounding; \<open>roundInt k\<close> is the double
  nearest to the integer \<open>k\<close>, which is \<open>k\<close> itself below \<open>2^53\<close>. The view counters
  of a property are taken to stay below \<open>2^53\<close>, where adding 1 is exact.
\<close>

definition roundInt :: "int \<Rightarrow> int" where
  "roundInt k = \<lfloor>fl (of_int k)\<rfloor>"

subsection \<open>parseInt\<close>

text \<open>
  The white space and line terminators of the language, in UTF-8: \<open>whiteSpaceLength s\<close>
  is the number of bytes of the white space character at the head of \<open>s\<close>, and 0 when
  there is none.
\<close>

definition whiteSpaceLength :: "string \<Rightarrow> nat" where
  "whiteSpaceLength s =
     (if take 1 s \<in> set [[CHR '' ''], [CHR 0x09], [CHR 0x0A], [CHR 0x0B], [CHR 0x0C], [CHR 0x0D]]
      then 1
      else if take 2 s = [CHR 0xC2, CHR 0xA0] then 2
      else if take 3 s \<in> set
           [[CHR 0xE1, CHR 0x9A, CHR 0x80], [CHR 0xE2, CHR 0x80, CHR 0x80],
            [CHR 0xE2, CHR 0x80, CHR 0x81], [CHR 0xE2, CHR 0x80, CHR 0x82],
            [CHR 0xE2, CHR 0x80, CHR 0x83], [CHR 0xE2, CHR 0x80, CHR 0x84],
            [CHR 0xE2, CHR 0x80, CHR 0x85], [CHR 0xE2, CHR 0x80, CHR 0x86],
            [CHR 0xE2, CHR 0x80, CHR 0x87], [CHR 0xE2, CHR 0x80, CHR 0x88],
            [CHR 0xE2, CHR 0x80, CHR 0x89], [CHR 0xE2, CHR 0x80, CHR 0x8A],
            [CHR 0xE2, CHR 0x80, CHR 0xA8], [CHR 0xE2, CHR 0x80, CHR 0xA9],
            [CHR 0xE2, CHR 0x80, CHR 0xAF], [CHR 0xE2, CHR 0x81, CHR 0x9F],
            [CHR 0xE3, CHR 0x80, CHR 0x80], [CHR 0xEF, CHR 0xBB, CHR 0xBF]]
      then 3
      else 0)"

fun skipWhiteSpace :: "string \<Rightarrow> string" where
  "skipWhiteSpace [] = []"
| "skipWhiteSpace (c # cs) =
     (if whiteSpaceLength (c # cs) = 0 then c # cs
      else skipWhiteSpace (drop (whiteSpaceLength (c # cs) - 1) cs))"

definition digitValue :: "char \<Rightarrow> nat option" where
  "digitValue c =
     (let n = (of_char c :: nat) in
      if 48 \<le> n \<and> n \<le> 57 then Some (n - 48)
      else if 97 \<le> n \<and> n \<le> 102 then Some (n - 87)
      else if 65 \<le> n \<and> n \<le> 70 then Some (n - 55)
      else None)"

text \<open>The longest prefix of digits below the radix, as digit values.\<close>

fun digitsPrefix :: "nat \<Rightarrow> string \<Rightarrow> nat list" where
  "digitsPrefix R [] = []"
| "digitsPrefix R (c # cs) =
     (case digitValue c of
        None \<Rightarrow> []
      | Some d \<Rightarrow> if d < R then d # digitsPrefix R cs else [])"

definition numberOf :: "nat \<Rightarrow> nat list \<Rightarrow> nat" where
  "numberOf R ds = foldl (\<lambda>a d. a * R + d) 0 ds"

text \<open>
  \<open>parseInt(str)\<close> with no radix argument: leading white space is skipped, a sign is
  read, a \<open>0x\<close> prefix selects radix 16, and the longest digit prefix is the value;
  \<open>None\<close> is \<open>NaN\<close>. \<open>parseIntMV\<close> is the integer the digits denote, and the
  number \<open>parseInt\<close> returns is the double nearest to it (beyond 20 significant digits
  the language allows an approximation of the digits; the nearest double is taken).
\<close>

definition parseIntMV :: "string \<Rightarrow> int option" where
  "parseIntMV str =
     (let s = skipWhiteSpace str;
          sgn_rest = (case s of
                        [] \<Rightarrow> (1, s)
                      | c # r \<Rightarrow> if c = CHR ''-'' then (- 1, r)
                                else if c = CHR ''+'' then (1, r) else (1, s));
          s1 = snd sgn_rest;
          radix_rest = (case s1 of
                          a # b # r \<Rightarrow>
                            if a = CHR ''0'' \<and> (b = CHR ''x'' \<or> b = CHR ''X'') then (16, r)
                            else (10, s1)
                        | _ \<Rightarrow> (10, s1));
          Z = digitsPrefix (fst radix_rest) (snd radix_rest)
      in if Z = [] then None
         else Some (fst sgn_rest * int (numberOf (fst radix_rest) Z)))"

definition parseInt :: "string \<Rightarrow> int option" where
  "parseInt str = map_option roundInt (parseIntMV str)"

text \<open>\<open>parseInt(req.query.p)\<close>: an undefined parameter is converted to the string
  \<open>"undefined"\<close>, which has no digits.\<close>

definition parseIntParam :: "string option \<Rightarrow> int option" where
  "parseIntParam v = (case v of None \<Rightarrow> None | Some s \<Rightarrow> parseInt s)"

text \<open>\<open>n || d\<close> for a number \<open>n\<close>: \<open>NaN\<close> and \<open>0\<close> are falsy.\<close>

definition orDefault :: "int option \<Rightarrow> int \<Rightarrow> int" where
  "orDefault n d = (case n of None \<Rightarrow> d | Some k \<Rightarrow> if k = 0 then d else k)"

text \<open>
  The validation library's \<open>isInt(str, {min, max})\<close>: the string matches
  \<open>/^[-+]?[0-9]+$/\<close> and its numeric value lies within the bounds that are given.
\<close>

definition isDigit :: "char \<Rightarrow> bool" where
  "isDigit c = (48 \<le> (of_char c :: nat) \<and> (of_char c :: nat) \<le> 57)"

definition intSyntax :: "string \<Rightarrow> bool" where
  "intSyntax s =
     (let body = (case s of
                    [] \<Rightarrow> s
                  | c # r \<Rightarrow> if c = CHR ''-'' \<or> c = CHR ''+'' then r else s)
      in body \<noteq> [] \<and> list_all isDigit body)"

definition isInt :: "int option \<Rightarrow> int option \<Rightarrow> string \<Rightarrow> bool" where
  "isInt mn mx s =
     (intSyntax s \<and>
      (case parseInt s of
         None \<Rightarrow> False
       | Some n \<Rightarrow> (case mn of None \<Rightarrow> True | Some lo \<Rightarrow> lo \<le> n) \<and>
                   (case mx of None \<Rightarrow> True | Some hi \<Rightarrow> n \<le> hi)))"

definition isIn :: "string list \<Rightarrow> string \<Rightarrow> bool" where
  "isIn allowed s = (s \<in> set allowed)"

text \<open>\<open>.optional()\<close>: the rest of the chain is skipped when the field is undefined.\<close>

definition optional :: "string option \<Rightarrow> (string \<Rightarrow> bool) \<Rightarrow> bool" where
  "optional v check = (case v of None \<Rightarrow> True | Some s \<Rightarrow> check s)"

text \<open>
  An error response is its HTTP status and its message. An exception that reaches
  \<open>next(error)\<close> is answered by the error handler of \<open>server.js\<close> with status 500.
\<close>

type_synonym failure = "nat \<times> string"

datatype error = ValidationError | SyntaxError | MongoError | UploadError

definition serverError :: "failure" where
  "serverError = (500, ''Something went wrong!'')"

definition andThen :: "error + 'a \<Rightarrow> ('a \<Rightarrow> error + 'b) \<Rightarrow> error + 'b" where
  "andThen r f = (case r of Inl e \<Rightarrow> Inl e | Inr x \<Rightarrow> f x)"

section \<open>Data model\<close>

subsection \<open>User (models/User.js)\<close>

text \<open>
  The fields of the schema that no modelled operation reads or writes (password, login
  and reset tokens, specialization, address, profile image, verification documents) are
  left out. A document's \<open>_id\<close> is the key under which the collection holds it.
\<close>

record rating_state =
  average :: real
  count :: nat

record agentProfile =
  licenseNumber :: "string option"
  experience :: "int option"
  bio :: "string option"
  phone :: "string option"
  rating :: rating_state
  totalTransactions :: int
  agentVerified :: bool

record user =
  name :: string
  email :: string
  role :: string
  isAgent :: bool
  agentProfile :: agentProfile
  isActive :: bool
  userCreatedAt :: int
  userUpdatedAt :: int

subsection \<open>Property (models/Property.js)\<close>

record price =
  amount :: real
  currency :: string
  priceType :: string

record address =
  street :: string
  city :: string
  state :: string
  zipCode :: string
  country :: string
  coordinates :: "(real \<times> real) option"

record specifications =
  bedrooms :: int
  bathrooms :: int
  areaValue :: real
  areaUnit :: string
  floors :: "int option"
  parking :: int
  furnished :: string
  yearBuilt :: "int option"

record image =
  image_id :: string
  public_id :: string
  url :: string
  caption :: "string option"
  isPrimary :: bool

record contactInfo =
  contactPhone :: string
  contactEmail :: "string option"
  whatsapp :: "string option"

record inquiry =
  inquiryUser :: "string option"
  inquiryMessage :: string
  inquiryPhone :: "string option"
  inquiryEmail :: "string option"
  inquiryCreatedAt :: int

record analytics =
  impressions :: int
  clicks :: int
  saves :: int

record property =
  title :: string
  description :: string
  propertyType :: string
  listingType :: string
  price :: price
  address :: address
  specifications :: specifications
  amenities :: "string list"
  images :: "image list"
  agent :: string
  contactInfo :: contactInfo
  status :: string
  featured :: bool
  views :: int
  inquiries :: "inquiry list"
  tags :: "string list"
  seoTitle :: "string option"
  seoDescription :: "string option"
  isVerified :: bool
  verificationDocuments :: "(string \<times> string) list"
  analytics :: analytics
  createdAt :: int
  updatedAt :: int

record db =
  users :: "string \<rightharpoonup> user"
  properties :: "string \<rightharpoonup> property"

text \<open>
  Both schemas set \<open>timestamps: true\<close>: \<open>save()\<close> of a document that was modified
  writes the time of the save to \<open>updatedAt\<close>. The first argument is the document as it
  was loaded. The schema validators of the paths the modelled handlers modify are the
  bounds of \<open>agentProfile.rating.average\<close> (min 0, max 5) for a user; for a property the
  handlers write a status their own validator has checked, the view counters, and images
  that carry the required fields.
\<close>

definition saveProperty :: "int \<Rightarrow> property \<Rightarrow> property \<Rightarrow> property" where
  "saveProperty now loaded p = (if p = loaded then p else p\<lparr>updatedAt := now\<rparr>)"

definition validateUser :: "user \<Rightarrow> bool" where
  "validateUser u =
     (0 \<le> average (rating (agentProfile u)) \<and> average (rating (agentProfile u)) \<le> 5)"

definition saveUser :: "int \<Rightarrow> user \<Rightarrow> user \<Rightarrow> error + user" where
  "saveUser now loaded u =
     (if u = loaded then Inr u
      else if validateUser u then Inr (u\<lparr>userUpdatedAt := now\<rparr>)
      else Inl ValidationError)"

subsection \<open>Model methods\<close>

text \<open>\<open>userSchema.methods.updateRating\<close> (models/User.js).\<close>

definition updateRating :: "int \<Rightarrow> user \<Rightarrow> real \<Rightarrow> error + user" where
  "updateRating now this newRating =
     (let r = rating (agentProfile this);
          currentTotal = fl (average r * real (count r));
          r1 = r\<lparr>count := nat (roundInt (int (count r) + 1))\<rparr>;
          r2 = r1\<lparr>average := fl (fl (currentTotal + newRating) / real (count r1))\<rparr>
      in saveUser now this (this\<lparr>agentProfile := (agentProfile this)\<lparr>rating := r2\<rparr>\<rparr>))"



section \<open>Authentication middleware (middleware/auth.js)\<close>

text \<open>
  The token library is not part of the repository: \<open>jwtVerify t\<close> is the \<open>id\<close> of the
  payload \<open>jwt.verify\<close> returns for the token \<open>t\<close>, and \<open>None\<close> when it throws.
\<close>

record credentials =
  authorization :: "string option"
  cookieToken :: "string option"

record reqUser =
  user_id :: string
  user_doc :: user

text \<open>\<open>str.split(sep)\<close> for a one-character separator.\<close>

fun split :: "char \<Rightarrow> string \<Rightarrow> string list" where
  "split sep [] = [[]]"
| "split sep (x # xs) =
     (if x = sep then [] # split sep xs
      else (case split sep xs of [] \<Rightarrow> [[x]] | w # ws \<Rightarrow> (x # w) # ws))"

definition startsWith :: "string \<Rightarrow> string \<Rightarrow> bool" where
  "startsWith s p = (take (length p) s = p)"

text \<open>\<open>xs[i]\<close>: undefined out of range.\<close>

definition elemAt :: "'a list \<Rightarrow> nat \<Rightarrow> 'a option" where
  "elemAt xs i = (if i < length xs then Some (xs ! i) else None)"

text \<open>The variable \<open>token\<close> after the header and cookie checks; \<open>None\<close> is undefined.\<close>

definition requestToken :: "credentials \<Rightarrow> string option" where
  "requestToken c =
     (let fromCookie = (if truthy (cookieToken c) then cookieToken c else None) in
      case authorization c of
        None \<Rightarrow> fromCookie
      | Some h \<Rightarrow> if h \<noteq> [] \<and> startsWith h ''Bearer'' then elemAt (split CHR '' '' h) 1
                  else fromCookie)"

definition protect ::
  "(string \<Rightarrow> string option) \<Rightarrow> (string \<rightharpoonup> user) \<Rightarrow> credentials \<Rightarrow> failure + reqUser" where
  "protect jwtVerify us c =
     (let token = requestToken c in
      if \<not> truthy token then Inl (401, ''Access denied. No token provided.'')
      else
        (case jwtVerify (case token of None \<Rightarrow> [] | Some t \<Rightarrow> t) of
           None \<Rightarrow> Inl (401, ''Invalid token'')
         | Some i \<Rightarrow>
             (case us i of
                None \<Rightarrow> Inl (401, ''Token is valid but user not found'')
              | Some u \<Rightarrow>
                  if \<not> isActive u then Inl (401, ''User account is deactivated'')
                  else Inr \<lparr>user_id = i, user_doc = u\<rparr>)))"

text \<open>\<open>requireAgent\<close> runs after \<open>protect\<close> in every route that uses it, so \<open>req.user\<close>
  is set when it runs.\<close>

definition requireAgent :: "reqUser \<Rightarrow> failure + reqUser" where
  "requireAgent ru =
     (if \<not> isAgent (user_doc ru) then Inl (403, ''Access denied. Agent privileges required.'')
      else Inr ru)"


section \<open>Pager, filter builder, sort resolver (routes)\<close>

record paging =
  page :: int
  limit :: int
  skip :: int

text \<open>The first three statements of every paginated handler.\<close>

definition pager :: "query \<Rightarrow> paging" where
  "pager q =
     (let page = orDefault (parseIntParam (q ''page'')) 1;
          limit = orDefault (parseIntParam (q ''limit'')) 10
      in \<lparr>page = page, limit = limit, skip = roundInt (roundInt (page - 1) * limit)\<rparr>)"

text \<open>
  The database is not part of the repository. A query is run on \<open>docs\<close>, the documents
  that match the filter in the order of the sort; \<open>.skip(s).limit(l)\<close> drops and takes as
  the database documents it: a negative skip is refused, a limit of 0 is no limit, and a
  negative limit is read as its absolute value.
\<close>

definition skipLimit :: "int \<Rightarrow> int \<Rightarrow> 'a list \<Rightarrow> error + 'a list" where
  "skipLimit s l docs =
     (if s < 0 then Inl MongoError
      else Inr (let rest = drop (nat s) docs in if l = 0 then rest else take (nat \<bar>l\<bar>) rest))"

record 'a listing =
  res_count :: nat
  res_total :: nat
  res_page :: int
  res_pages :: int
  res_items :: "'a list"

text \<open>\<open>Math.ceil(total / limit)\<close>.\<close>

definition pageCount :: "nat \<Rightarrow> int \<Rightarrow> int" where
  "pageCount n l = \<lceil>fl (real n / real_of_int l)\<rceil>"

definition respond :: "paging \<Rightarrow> 'a list \<Rightarrow> failure + 'a listing" where
  "respond pg docs =
     (case skipLimit (skip pg) (limit pg) docs of
        Inl e \<Rightarrow> Inl serverError
      | Inr found \<Rightarrow>
          Inr \<lparr>res_count = length found, res_total = length docs, res_page = page pg,
               res_pages = pageCount (length docs) (limit pg), res_items = found\<rparr>)"

text \<open>
  A filter is an object from field paths to conditions. \<open>RegExpI s\<close> is
  \<open>new RegExp(s, 'i')\<close>, \<open>GteInt n\<close> is \<open>{ $gte: n }\<close> for the result \<open>n\<close> of
  \<open>parseInt\<close>, and \<open>Range lo hi\<close> is the object that holds \<open>$gte: parseFloat(lo)\<close> and
  \<open>$lte: parseFloat(hi)\<close> for the bounds that are given. The constructor of a regular
  expression throws on an ill-formed pattern; \<open>validPattern\<close> says which patterns it
  accepts.
\<close>

datatype cond =
  Eq string
| RegExpI string
| GteInt "int option"
| Range "string option" "string option"
| OrGroup "(string \<times> cond) list"

type_synonym queryFilter = "string \<rightharpoonup> cond"

type_synonym sortSpec = "(string \<times> int) list"

definition newRegExp :: "(string \<Rightarrow> bool) \<Rightarrow> string \<Rightarrow> error + cond" where
  "newRegExp validPattern s = (if validPattern s then Inr (RegExpI s) else Inl SyntaxError)"

text \<open>\<open>if (req.query.p) filter[key] = ...\<close>, for the three kinds of condition.\<close>

definition setEq :: "string \<Rightarrow> string option \<Rightarrow> queryFilter \<Rightarrow> error + queryFilter" where
  "setEq key v f = (case v of None \<Rightarrow> Inr f | Some s \<Rightarrow> if s = [] then Inr f else Inr (f(key \<mapsto> Eq s)))"

definition setRegExp ::
  "(string \<Rightarrow> bool) \<Rightarrow> string \<Rightarrow> string option \<Rightarrow> queryFilter \<Rightarrow> error + queryFilter" where
  "setRegExp validPattern key v f =
     (case v of
        None \<Rightarrow> Inr f
      | Some s \<Rightarrow> if s = [] then Inr f
                  else andThen (newRegExp validPattern s) (\<lambda>r. Inr (f(key \<mapsto> r))))"

definition setGteInt :: "string \<Rightarrow> string option \<Rightarrow> queryFilter \<Rightarrow> error + queryFilter" where
  "setGteInt key v f =
     (case v of None \<Rightarrow> Inr f | Some s \<Rightarrow> if s = [] then Inr f else Inr (f(key \<mapsto> GteInt (parseInt s))))"

definition setPrice :: "string option \<Rightarrow> string option \<Rightarrow> queryFilter \<Rightarrow> error + queryFilter" where
  "setPrice lo hi f =
     (if truthy lo \<or> truthy hi
      then Inr (f(''price.amount'' \<mapsto>
                   Range (if truthy lo then lo else None) (if truthy hi then hi else None)))
      else Inr f)"

definition setSearch ::
  "(string \<Rightarrow> bool) \<Rightarrow> string option \<Rightarrow> queryFilter \<Rightarrow> error + queryFilter" where
  "setSearch validPattern v f =
     (case v of
        None \<Rightarrow> Inr f
      | Some s \<Rightarrow>
          if s = [] then Inr f
          else andThen (newRegExp validPattern s)
                 (\<lambda>r. Inr (f(''$or'' \<mapsto> OrGroup [(''title'', r), (''description'', r),
                                                  (''address.city'', r), (''address.state'', r)]))))"

text \<open>The filter of \<open>GET /api/properties\<close>.\<close>

definition propertiesFilter :: "(string \<Rightarrow> bool) \<Rightarrow> query \<Rightarrow> error + queryFilter" where
  "propertiesFilter validPattern q =
     andThen (Inr [''status'' \<mapsto> Eq ''active'']) (\<lambda>f.
     andThen (setEq ''type'' (q ''type'') f) (\<lambda>f.
     andThen (setEq ''listingType'' (q ''listingType'') f) (\<lambda>f.
     andThen (setRegExp validPattern ''address.city'' (q ''city'') f) (\<lambda>f.
     andThen (setRegExp validPattern ''address.state'' (q ''state'') f) (\<lambda>f.
     andThen (setGteInt ''specifications.bedrooms'' (q ''bedrooms'') f) (\<lambda>f.
     andThen (setGteInt ''specifications.bathrooms'' (q ''bathrooms'') f) (\<lambda>f.
     andThen (setPrice (q ''minPrice'') (q ''maxPrice'') f) (\<lambda>f.
     setSearch validPattern (q ''search'') f))))))))"

text \<open>The filter of \<open>GET /api/properties/agent/my-properties\<close>.\<close>

definition myPropertiesFilter :: "string \<Rightarrow> query \<Rightarrow> queryFilter" where
  "myPropertiesFilter uid q =
     (let f = [''agent'' \<mapsto> Eq uid] in
      case q ''status'' of
        None \<Rightarrow> f
      | Some s \<Rightarrow> if s = [] then f else f(''status'' \<mapsto> Eq s))"

text \<open>The sort objects of \<open>GET /api/properties\<close> and \<open>GET /api/agents\<close>, keys in the order
  they are written.\<close>

definition sortOrderOf :: "query \<Rightarrow> int" where
  "sortOrderOf q = (if q ''sortOrder'' = Some ''asc'' then 1 else - 1)"

definition propertiesSort :: "query \<Rightarrow> sortSpec" where
  "propertiesSort q =
     (if truthy (q ''sortBy'') then
        (let sortBy = (case q ''sortBy'' of None \<Rightarrow> [] | Some s \<Rightarrow> s);
             sortOrder = sortOrderOf q
         in if sortBy = ''price'' then [(''price.amount'', sortOrder)]
            else if sortBy = ''area'' then [(''specifications.area.value'', sortOrder)]
            else [(sortBy, sortOrder)])
      else [(''featured'', - 1), (''createdAt'', - 1)])"

definition agentsSort :: "query \<Rightarrow> sortSpec" where
  "agentsSort q =
     (if truthy (q ''sortBy'') then
        (let sortBy = (case q ''sortBy'' of None \<Rightarrow> [] | Some s \<Rightarrow> s);
             sortOrder = sortOrderOf q
         in if sortBy = ''rating'' then [(''agentProfile.rating.average'', sortOrder)]
            else if sortBy = ''experience'' then [(''agentProfile.experience'', sortOrder)]
            else if sortBy = ''transactions'' then [(''agentProfile.totalTransactions'', sortOrder)]
            else [(sortBy, sortOrder)])
      else [(''agentProfile.rating.average'', - 1), (''agentProfile.totalTransactions'', - 1)])"

text \<open>
  The validator chains of the two listings. \<open>isFloat\<close> is the validation library's
  predicate on floating-point syntax and bounds, which is kept as a parameter;
  \<open>isString\<close> holds of every string.
\<close>

definition propertiesValidators ::
  "(real option \<Rightarrow> real option \<Rightarrow> string \<Rightarrow> bool) \<Rightarrow> query \<Rightarrow> bool" where
  "propertiesValidators isFloat q =
     (optional (q ''page'') (isInt (Some 1) None) \<and>
      optional (q ''limit'') (isInt (Some 1) (Some 50)) \<and>
      optional (q ''type'') (isIn [''apartment'', ''house'', ''condo'', ''townhouse'', ''land'',
                                   ''commercial'', ''office'', ''warehouse'']) \<and>
      optional (q ''listingType'') (isIn [''sale'', ''rent'', ''lease'']) \<and>
      optional (q ''minPrice'') (isFloat (Some 0) None) \<and>
      optional (q ''maxPrice'') (isFloat (Some 0) None) \<and>
      optional (q ''city'') (\<lambda>s. True) \<and>
      optional (q ''state'') (\<lambda>s. True) \<and>
      optional (q ''bedrooms'') (isInt (Some 0) None) \<and>
      optional (q ''bathrooms'') (isInt (Some 0) None) \<and>
      optional (q ''sortBy'') (isIn [''price'', ''createdAt'', ''views'', ''area'']) \<and>
      optional (q ''sortOrder'') (isIn [''asc'', ''desc'']))"

definition agentsValidators ::
  "(real option \<Rightarrow> real option \<Rightarrow> string \<Rightarrow> bool) \<Rightarrow> query \<Rightarrow> bool" where
  "agentsValidators isFloat q =
     (optional (q ''page'') (isInt (Some 1) None) \<and>
      optional (q ''limit'') (isInt (Some 1) (Some 50)) \<and>
      optional (q ''specialization'') (isIn [''residential'', ''commercial'', ''land'', ''luxury'',
                                             ''rental'']) \<and>
      optional (q ''city'') (\<lambda>s. True) \<and>
      optional (q ''minRating'') (isFloat (Some 0) (Some 5)) \<and>
      optional (q ''sortBy'') (isIn [''rating'', ''experience'', ''transactions'', ''createdAt'']) \<and>
      optional (q ''sortOrder'') (isIn [''asc'', ''desc'']))"

text \<open>
  \<open>GET /api/properties\<close>. \<open>findDocs filter sort\<close> is the list of the stored properties
  that match the filter, in the order of the sort; the handler reads its length through
  \<open>countDocuments\<close>.
\<close>

definition getProperties ::
  "(real option \<Rightarrow> real option \<Rightarrow> string \<Rightarrow> bool) \<Rightarrow> (string \<Rightarrow> bool) \<Rightarrow>
   (queryFilter \<Rightarrow> sortSpec \<Rightarrow> 'a list) \<Rightarrow> query \<Rightarrow> failure + 'a listing" where
  "getProperties isFloat validPattern findDocs q =
     (if \<not> propertiesValidators isFloat q then Inl (400, ''Validation errors'')
      else
        (let pg = pager q in
         case propertiesFilter validPattern q of
           Inl e \<Rightarrow> Inl serverError
         | Inr f \<Rightarrow> respond pg (findDocs f (propertiesSort q))))"

text \<open>\<open>GET /api/properties/agent/my-properties\<close>.\<close>

definition getMyProperties ::
  "(string \<Rightarrow> string option) \<Rightarrow> (queryFilter \<Rightarrow> sortSpec \<Rightarrow> 'a list) \<Rightarrow> db \<Rightarrow>
   credentials \<Rightarrow> query \<Rightarrow> failure + 'a listing" where
  "getMyProperties jwtVerify findDocs d c q =
     (case protect jwtVerify (users d) c of
        Inl e \<Rightarrow> Inl e
      | Inr ru \<Rightarrow>
          (case requireAgent ru of
             Inl e \<Rightarrow> Inl e
           | Inr ru \<Rightarrow>
               (let pg = pager q;
                    f = myPropertiesFilter (user_id ru) q
                in respond pg (findDocs f [(''createdAt'', - 1)]))))"

section \<open>Property routes\<close>

text \<open>
  Identifiers are the strings the handlers compare. In the property and upload routes a
  path parameter is taken as it is stored: one that is no key of the collection is
  answered as not found, and the cast of an ill-formed identifier, which raises, is not
  modelled. Each handler returns its response and the database it leaves.
\<close>


definition statuses :: "string list" where
  "statuses = [''draft'', ''active'', ''pending'', ''sold'', ''rented'', ''inactive'']"

text \<open>\<open>PUT /api/properties/:id/status\<close>.\<close>

definition putStatus ::
  "(string \<Rightarrow> string option) \<Rightarrow> int \<Rightarrow> db \<Rightarrow> credentials \<Rightarrow> string \<Rightarrow> string option \<Rightarrow>
   (failure + property) \<times> db" where
  "putStatus jwtVerify now d c propertyId bodyStatus =
     (case protect jwtVerify (users d) c of
        Inl e \<Rightarrow> (Inl e, d)
      | Inr ru \<Rightarrow>
          (case bodyStatus of
             None \<Rightarrow> (Inl (400, ''Validation errors''), d)
           | Some s \<Rightarrow>
               if \<not> isIn statuses s then (Inl (400, ''Validation errors''), d)
               else
                 (case properties d propertyId of
                    None \<Rightarrow> (Inl (404, ''Property not found''), d)
                  | Some property \<Rightarrow>
                      if agent property \<noteq> user_id ru \<and> role (user_doc ru) \<noteq> ''admin''
                      then (Inl (403, ''Not authorized to update this property''), d)
                      else
                        (let p = saveProperty now property (property\<lparr>status := s\<rparr>)
                         in (Inr p, d\<lparr>properties := (properties d)(propertyId \<mapsto> p)\<rparr>)))))"

section \<open>Upload routes (routes/upload.js)\<close>

text \<open>\<open>xs.findIndex(P)\<close>; \<open>None\<close> is \<open>-1\<close>.\<close>

fun findIndex :: "('a \<Rightarrow> bool) \<Rightarrow> 'a list \<Rightarrow> nat option" where
  "findIndex P [] = None"
| "findIndex P (x # xs) = (if P x then Some 0 else map_option Suc (findIndex P xs))"

text \<open>
  The media host is not part of the repository. An upload request carries, for each file
  of \<open>req.files\<close> in order, the outcome of \<open>uploadToCloudinary\<close>: the stored object's
  \<open>public_id\<close> and \<open>secure_url\<close>, or \<open>None\<close> when the promise is rejected.
  \<open>newId i\<close> is the \<open>_id\<close> the image at index \<open>i\<close> of the upload is given when it is
  pushed. \<open>captions\<close> is \<open>req.body.captions\<close>, an array of strings when it is given.
\<close>

definition uploadedImage ::
  "property \<Rightarrow> string list option \<Rightarrow> (nat \<Rightarrow> string) \<Rightarrow> nat \<Rightarrow> string \<times> string \<Rightarrow> image" where
  "uploadedImage property captions newId index result =
     \<lparr>image_id = newId index, public_id = fst result, url = snd result,
      caption = (case captions of None \<Rightarrow> Some [] | Some cs \<Rightarrow> elemAt cs index),
      isPrimary = (index = 0 \<and> length (images property) = 0)\<rparr>"

text \<open>\<open>Promise.all\<close> of the uploads, from the given index on.\<close>

fun uploadAll ::
  "property \<Rightarrow> string list option \<Rightarrow> (nat \<Rightarrow> string) \<Rightarrow> nat \<Rightarrow> (string \<times> string) option list \<Rightarrow>
   error + image list" where
  "uploadAll property captions newId index [] = Inr []"
| "uploadAll property captions newId index (None # rs) = Inl UploadError"
| "uploadAll property captions newId index (Some r # rs) =
     (case uploadAll property captions newId (Suc index) rs of
        Inl e \<Rightarrow> Inl e
      | Inr imgs \<Rightarrow> Inr (uploadedImage property captions newId index r # imgs))"

text \<open>\<open>POST /api/upload/property-images/:propertyId\<close>.\<close>

definition postPropertyImages ::
  "(string \<Rightarrow> string option) \<Rightarrow> int \<Rightarrow> db \<Rightarrow> credentials \<Rightarrow> string \<Rightarrow>
   (string \<times> string) option list \<Rightarrow> string list option \<Rightarrow> (nat \<Rightarrow> string) \<Rightarrow>
   (failure + image list) \<times> db" where
  "postPropertyImages jwtVerify now d c propertyId files captions newId =
     (case protect jwtVerify (users d) c of
        Inl e \<Rightarrow> (Inl e, d)
      | Inr ru \<Rightarrow>
          (case requireAgent ru of
             Inl e \<Rightarrow> (Inl e, d)
           | Inr ru \<Rightarrow>
               (case properties d propertyId of
                  None \<Rightarrow> (Inl (404, ''Property not found''), d)
                | Some property \<Rightarrow>
                    if agent property \<noteq> user_id ru \<and> role (user_doc ru) \<noteq> ''admin''
                    then (Inl (403, ''Not authorized to upload images for this property''), d)
                    else if length files = 0 then (Inl (400, ''No images uploaded''), d)
                    else
                      (case uploadAll property captions newId 0 files of
                         Inl e \<Rightarrow> (Inl serverError, d)
                       | Inr uploadedImages \<Rightarrow>
                           (let p = saveProperty now property
                                      (property\<lparr>images := images property @ uploadedImages\<rparr>)
                            in (Inr uploadedImages,
                                d\<lparr>properties := (properties d)(propertyId \<mapsto> p)\<rparr>))))))"

text \<open>
  \<open>PUT /api/upload/property-images/:propertyId/:imageId\<close>. \<open>bodyCaption\<close> is
  \<open>req.body.caption\<close> when it is not undefined, and \<open>primary\<close> says whether
  \<open>req.body.isPrimary === true\<close>.
\<close>

definition putPropertyImage ::
  "(string \<Rightarrow> string option) \<Rightarrow> int \<Rightarrow> db \<Rightarrow> credentials \<Rightarrow> string \<Rightarrow> string \<Rightarrow>
   string option \<Rightarrow> bool \<Rightarrow> (failure + image) \<times> db" where
  "putPropertyImage jwtVerify now d c propertyId imageId bodyCaption primary =
     (case protect jwtVerify (users d) c of
        Inl e \<Rightarrow> (Inl e, d)
      | Inr ru \<Rightarrow>
          (case properties d propertyId of
             None \<Rightarrow> (Inl (404, ''Property not found''), d)
           | Some property \<Rightarrow>
               if agent property \<noteq> user_id ru \<and> role (user_doc ru) \<noteq> ''admin''
               then (Inl (403, ''Not authorized to update images for this property''), d)
               else
                 (case findIndex (\<lambda>img. image_id img = imageId) (images property) of
                    None \<Rightarrow> (Inl (404, ''Image not found''), d)
                  | Some imageIndex \<Rightarrow>
                      (let imgs0 = images property;
                           imgs1 = (case bodyCaption of
                                      None \<Rightarrow> imgs0
                                    | Some cap \<Rightarrow>
                                        imgs0[imageIndex := (imgs0 ! imageIndex)\<lparr>caption := Some cap\<rparr>]);
                           imgs2 = (if primary then
                                      (let cleared = map (\<lambda>img. img\<lparr>isPrimary := False\<rparr>) imgs1
                                       in cleared[imageIndex :=
                                            (cleared ! imageIndex)\<lparr>isPrimary := True\<rparr>])
                                    else imgs1);
                           p = saveProperty now property (property\<lparr>images := imgs2\<rparr>)
                       in (Inr (images p ! imageIndex),
                           d\<lparr>properties := (properties d)(propertyId \<mapsto> p)\<rparr>)))))"

text \<open>
  \<open>DELETE /api/upload/property-images/:propertyId/:imageId\<close>. \<open>destroyOk pid\<close> says
  whether the media host's \<open>destroy\<close> of the object \<open>pid\<close> resolves; when it does not,
  the promise is rejected and the \<open>catch\<close> block runs. The handler's calls to the media
  host and to the error log are returned as a list of events, in order.
\<close>

datatype event = CloudinaryDestroy string | ConsoleError string

definition deletePropertyImage ::
  "(string \<Rightarrow> string option) \<Rightarrow> (string \<Rightarrow> bool) \<Rightarrow> int \<Rightarrow> db \<Rightarrow> credentials \<Rightarrow> string \<Rightarrow>
   string \<Rightarrow> (failure + nat) \<times> db \<times> event list" where
  "deletePropertyImage jwtVerify destroyOk now d c propertyId imageId =
     (case protect jwtVerify (users d) c of
        Inl e \<Rightarrow> (Inl e, d, [])
      | Inr ru \<Rightarrow>
          (case properties d propertyId of
             None \<Rightarrow> (Inl (404, ''Property not found''), d, [])
           | Some property \<Rightarrow>
               if agent property \<noteq> user_id ru \<and> role (user_doc ru) \<noteq> ''admin''
               then (Inl (403, ''Not authorized to delete images for this property''), d, [])
               else
                 (case findIndex (\<lambda>img. image_id img = imageId) (images property) of
                    None \<Rightarrow> (Inl (404, ''Image not found''), d, [])
                  | Some imageIndex \<Rightarrow>
                      (let imageToDelete = images property ! imageIndex;
                           events = CloudinaryDestroy (public_id imageToDelete) #
                                    (if destroyOk (public_id imageToDelete) then []
                                     else [ConsoleError ''Error deleting from Cloudinary:'']);
                           spliced = take imageIndex (images property) @
                                     drop (Suc imageIndex) (images property);
                           remaining = (if isPrimary imageToDelete \<and> length spliced > 0
                                        then (case spliced of
                                                [] \<Rightarrow> []
                                              | x # xs \<Rightarrow> x\<lparr>isPrimary := True\<rparr> # xs)
                                        else spliced);
                           p = saveProperty now property (property\<lparr>images := remaining\<rparr>)
                       in (Inr (length (images p)),
                           d\<lparr>properties := (properties d)(propertyId \<mapsto> p)\<rparr>,
                           events)))))"

section \<open>Agent routes (routes/agents.js)\<close>

text \<open>
  The query on \<open>_id\<close> casts the path parameter to an object identifier: a string of 24
  hexadecimal digits, in either case, names the identifier whose text is the string in
  lower case, and the cast of a string of another form is taken to raise. The \<open>id\<close> of
  a stored document, that of \<open>req.user\<close> among them, is the text of its identifier, in
  lower case.
\<close>

definition isHexDigit :: "char \<Rightarrow> bool" where
  "isHexDigit c = (case digitValue c of None \<Rightarrow> False | Some d \<Rightarrow> True)"

definition lowerHex :: "char \<Rightarrow> char" where
  "lowerHex c =
     (if c = CHR ''A'' then CHR ''a'' else if c = CHR ''B'' then CHR ''b''
      else if c = CHR ''C'' then CHR ''c'' else if c = CHR ''D'' then CHR ''d''
      else if c = CHR ''E'' then CHR ''e'' else if c = CHR ''F'' then CHR ''f'' else c)"

definition castObjectId :: "string \<Rightarrow> string option" where
  "castObjectId s =
     (if length s = 24 \<and> list_all isHexDigit s then Some (map lowerHex s) else None)"

text \<open>
  \<open>isLength\<close> counts the characters of a string, a surrogate pair once: the bytes of
  its UTF-8 encoding that continue no character.
\<close>

definition codePoints :: "string \<Rightarrow> nat" where
  "codePoints s =
     length (filter (\<lambda>c. \<not> (128 \<le> (of_char c :: nat) \<and> (of_char c :: nat) < 192)) s)"

text \<open>
  \<open>POST /api/agents/:id/rate\<close>. \<open>bodyRating\<close> is the number \<open>parseFloat\<close> reads from
  \<open>req.body.rating\<close>, and \<open>None\<close> when the field is missing or is no float, which the
  validator refuses. The agent is looked up under the identifier the path parameter is
  cast to, and the check against the caller compares the path parameter itself.
\<close>

definition rateValidators :: "real option \<Rightarrow> string option \<Rightarrow> bool" where
  "rateValidators bodyRating bodyComment =
     ((case bodyRating of None \<Rightarrow> False | Some r \<Rightarrow> 1 \<le> r \<and> r \<le> 5) \<and>
      optional bodyComment (\<lambda>s. codePoints s \<le> 500))"

definition rateAgent ::
  "(string \<Rightarrow> string option) \<Rightarrow> int \<Rightarrow> db \<Rightarrow> credentials \<Rightarrow> string \<Rightarrow> real option \<Rightarrow>
   string option \<Rightarrow> (failure + unit) \<times> db" where
  "rateAgent jwtVerify now d c agentId bodyRating bodyComment =
     (case protect jwtVerify (users d) c of
        Inl e \<Rightarrow> (Inl e, d)
      | Inr ru \<Rightarrow>
          if \<not> rateValidators bodyRating bodyComment then (Inl (400, ''Validation errors''), d)
          else
            (case castObjectId agentId of
               None \<Rightarrow> (Inl serverError, d)
             | Some oid \<Rightarrow>
                 (case (case users d oid of
                          None \<Rightarrow> None
                        | Some u \<Rightarrow> if isAgent u \<and> isActive u then Some u else None) of
                    None \<Rightarrow> (Inl (404, ''Agent not found''), d)
                  | Some agentDoc \<Rightarrow>
                      if user_id ru = agentId then (Inl (400, ''You cannot rate yourself''), d)
                      else
                        (case updateRating now agentDoc
                                (case bodyRating of None \<Rightarrow> 0 | Some r \<Rightarrow> r) of
                           Inl e \<Rightarrow> (Inl serverError, d)
                         | Inr saved \<Rightarrow> (Inr (), d\<lparr>users := (users d)(oid \<mapsto> saved)\<rparr>)))))"

text \<open>The HTTP status of a response: the handlers modelled here answer 200 on success.\<close>

definition httpStatus :: "failure + 'a \<Rightarrow> nat" where
  "httpStatus r = (case r of Inl e \<Rightarrow> fst e | Inr x \<Rightarrow> 200)"

text \<open>The number of images flagged primary.\<close>

definition primaryCount :: "image list \<Rightarrow> nat" where
  "primaryCount imgs = length (filter isPrimary imgs)"

section \<open>Example data\<close>

text \<open>
  A database of four users (two agents, an admin and a plain user) and one property of
  the first agent with three images, the tokens of the four users, and requests that
  carry a token in the \<open>Authorization\<close> header. The theorems below are instantiated on
  them.
\<close>

definition newUser :: "string \<Rightarrow> string \<Rightarrow> bool \<Rightarrow> user" where
  "newUser n r a =
     \<lparr>name = n, email = ''user@example.com'', role = r, isAgent = a,
      agentProfile = \<lparr>licenseNumber = None, experience = None, bio = None, phone = None,
                      rating = \<lparr>average = 0, count = 0\<rparr>, totalTransactions = 0,
                      agentVerified = False\<rparr>,
      isActive = True, userCreatedAt = 0, userUpdatedAt = 0\<rparr>"

definition demoVerify :: "string \<Rightarrow> string option" where
  "demoVerify t =
     (if t = ''agent-token'' then Some ''a1''
      else if t = ''other-token'' then Some ''a2''
      else if t = ''admin-token'' then Some ''adm''
      else if t = ''user-token'' then Some ''u1''
      else None)"

definition bearer :: "string \<Rightarrow> credentials" where
  "bearer t = \<lparr>authorization = Some (''Bearer '' @ t), cookieToken = None\<rparr>"

definition demoImages :: "image list" where
  "demoImages =
     [\<lparr>image_id = ''i1'', public_id = ''properties/one'', url = ''https://img/one'',
       caption = Some ''Front'', isPrimary = True\<rparr>,
      \<lparr>image_id = ''i2'', public_id = ''properties/two'', url = ''https://img/two'',
       caption = None, isPrimary = False\<rparr>,
      \<lparr>image_id = ''i3'', public_id = ''properties/three'', url = ''https://img/three'',
       caption = Some ''Garden'', isPrimary = False\<rparr>]"

definition demoProperty :: property where
  "demoProperty =
     \<lparr>title = ''Two bedroom flat'', description = ''A flat near the park'',
      propertyType = ''apartment'', listingType = ''sale'',
      price = \<lparr>amount = 100000, currency = ''INR'', priceType = ''total''\<rparr>,
      address = \<lparr>street = ''1 Main Road'', city = ''Delhi'', state = ''Delhi'',
                 zipCode = ''110001'', country = ''India'', coordinates = None\<rparr>,
      specifications = \<lparr>bedrooms = 2, bathrooms = 1, areaValue = 900, areaUnit = ''sqft'',
                        floors = None, parking = 0, furnished = ''unfurnished'',
                        yearBuilt = None\<rparr>,
      amenities = [''garden''], images = demoImages, agent = ''a1'',
      contactInfo = \<lparr>contactPhone = ''919999999999'', contactEmail = None, whatsapp = None\<rparr>,
      status = ''sold'', featured = False, views = 41, inquiries = [], tags = [],
      seoTitle = None, seoDescription = None, isVerified = False,
      verificationDocuments = [],
      analytics = \<lparr>impressions = 17, clicks = 0, saves = 0\<rparr>,
      createdAt = 1000, updatedAt = 2000\<rparr>"

definition demoDb :: db where
  "demoDb =
     \<lparr>users = [''a1'' \<mapsto> newUser ''Asha'' ''agent'' True,
               ''a2'' \<mapsto> newUser ''Bala'' ''agent'' True,
               ''adm'' \<mapsto> newUser ''Chitra'' ''admin'' False,
               ''u1'' \<mapsto> newUser ''Dev'' ''user'' False],
      properties = [''p1'' \<mapsto> demoProperty]\<rparr>"

text \<open>
  A database that holds one agent under an identifier of 24 hexadecimal digits, and the
  token of that agent.
\<close>

definition rateVerify :: "string \<Rightarrow> string option" where
  "rateVerify t = (if t = ''agent-token'' then Some ''64a1b2c3d4e5f6a7b8c9d0e1'' else None)"

definition rateDb :: db where
  "rateDb =
     \<lparr>users = [''64a1b2c3d4e5f6a7b8c9d0e1'' \<mapsto> newUser ''Asha'' ''agent'' True],
      properties = Map.empty\<rparr>"

section \<open>IEEE rounding\<close>

lemma pow2_powr: "pow2 i = 2 powr (of_int i)"
  by (simp add: pow2_def powr_int)

lemma pow2_pos: "0 < pow2 i"
  by (simp add: pow2_powr)

lemma pow2_add: "pow2 (i + j) = pow2 i * pow2 j"
  by (simp add: pow2_powr powr_add)

lemma pow2_mono: "i \<le> j \<Longrightarrow> pow2 i \<le> pow2 j"
  by (simp add: pow2_powr)

lemma pow2_nat: "pow2 (int n) = 2 ^ n"
  by (simp add: pow2_def)

lemma pow2_52: "pow2 e = pow2 (e - 52) * 2 ^ 52"
proof -
  have "e = (e - 52) + 52" by arith
  then have "pow2 e = pow2 ((e - 52) + 52)" by (rule arg_cong)
  also have "\<dots> = pow2 (e - 52) * pow2 52" by (rule pow2_add)
  finally show ?thesis using pow2_nat [of 52] by simp
qed

lemma pow2_53: "pow2 (e + 1) = pow2 (e - 52) * 2 ^ 53"
proof -
  have "e + 1 = (e - 52) + 53" by arith
  then have "pow2 (e + 1) = pow2 ((e - 52) + 53)" by (rule arg_cong)
  also have "\<dots> = pow2 (e - 52) * pow2 53" by (rule pow2_add)
  finally show ?thesis using pow2_nat [of 53] by simp
qed

lemma roundHalfEven_of_int: "roundHalfEven (of_int j) = j"
  by (simp add: roundHalfEven_def)

lemma roundHalfEven_error: "\<bar>of_int (roundHalfEven x) - x\<bar> \<le> 1 / 2"
proof -
  have "of_int \<lfloor>x\<rfloor> \<le> x" "x < of_int \<lfloor>x\<rfloor> + 1" by linarith+
  then show ?thesis
    by (auto simp add: roundHalfEven_def Let_def)
qed

lemma roundHalfEven_mono:
  assumes "x \<le> y"
  shows "roundHalfEven x \<le> roundHalfEven y"
proof -
  have fx: "of_int \<lfloor>x\<rfloor> \<le> x" "x < of_int \<lfloor>x\<rfloor> + 1" by linarith+
  have fy: "of_int \<lfloor>y\<rfloor> \<le> y" "y < of_int \<lfloor>y\<rfloor> + 1" by linarith+
  have lx: "roundHalfEven x \<le> \<lfloor>x\<rfloor> + 1" and ly: "\<lfloor>y\<rfloor> \<le> roundHalfEven y"
    by (simp_all add: roundHalfEven_def Let_def)
  from assms have "\<lfloor>x\<rfloor> \<le> \<lfloor>y\<rfloor>" by (rule floor_mono)
  then consider "\<lfloor>x\<rfloor> + 1 \<le> \<lfloor>y\<rfloor>" | "\<lfloor>x\<rfloor> = \<lfloor>y\<rfloor>" by linarith
  then show ?thesis
  proof cases
    case 1
    with lx ly show ?thesis by linarith
  next
    case 2
    with assms show ?thesis
      by (auto simp add: roundHalfEven_def Let_def)
  qed
qed

lemma floor_log_bounds:
  assumes "x \<noteq> 0"
  shows "pow2 \<lfloor>log 2 \<bar>x\<bar>\<rfloor> \<le> \<bar>x\<bar>" and "\<bar>x\<bar> < pow2 (\<lfloor>log 2 \<bar>x\<bar>\<rfloor> + 1)"
proof -
  have p: "0 < \<bar>x\<bar>" using assms by simp
  have "of_int \<lfloor>log 2 \<bar>x\<bar>\<rfloor> \<le> log 2 \<bar>x\<bar>" by linarith
  then have "2 powr (of_int \<lfloor>log 2 \<bar>x\<bar>\<rfloor>) \<le> 2 powr (log 2 \<bar>x\<bar>)"
    by simp
  then show "pow2 \<lfloor>log 2 \<bar>x\<bar>\<rfloor> \<le> \<bar>x\<bar>"
    using p by (simp add: pow2_powr)
  have "log 2 \<bar>x\<bar> < of_int (\<lfloor>log 2 \<bar>x\<bar>\<rfloor> + 1)" by linarith
  then have "2 powr (log 2 \<bar>x\<bar>) < 2 powr (of_int (\<lfloor>log 2 \<bar>x\<bar>\<rfloor> + 1))"
    by simp
  then show "\<bar>x\<bar> < pow2 (\<lfloor>log 2 \<bar>x\<bar>\<rfloor> + 1)"
    using p by (simp add: pow2_powr)
qed

lemma floor_log_eq:
  assumes "pow2 e \<le> \<bar>x\<bar>" and "\<bar>x\<bar> < pow2 (e + 1)"
  shows "\<lfloor>log 2 \<bar>x\<bar>\<rfloor> = e"
proof -
  have p: "0 < \<bar>x\<bar>" using assms(1) pow2_pos [of e] by linarith
  have "2 powr (of_int e) \<le> 2 powr (log 2 \<bar>x\<bar>)" using assms(1) p by (simp add: pow2_powr)
  then have "of_int e \<le> log 2 \<bar>x\<bar>" by simp
  moreover have "2 powr (log 2 \<bar>x\<bar>) < 2 powr (of_int (e + 1))"
    using assms(2) p by (simp add: pow2_powr)
  then have "log 2 \<bar>x\<bar> < of_int (e + 1)" by simp
  ultimately show ?thesis by linarith
qed


lemma exponent_eq:
  assumes "pow2 e \<le> \<bar>x\<bar>" and "\<bar>x\<bar> < pow2 (e + 1)" and "- 1022 \<le> e"
  shows "exponent x = e"
  using floor_log_eq [OF assms(1,2)] assms(3) by (simp add: exponent_def)

lemma fl_eval:
  assumes "pow2 e \<le> \<bar>x\<bar>" and "\<bar>x\<bar> < pow2 (e + 1)" and "- 1022 \<le> e"
  shows "fl x = of_int (roundHalfEven (x / pow2 (e - 52))) * pow2 (e - 52)"
proof -
  have "x \<noteq> 0" using assms(1) pow2_pos [of e] by auto
  then show ?thesis by (simp add: fl_def exponent_eq [OF assms])
qed

lemma fl_0: "fl 0 = 0"
  by (simp add: fl_def)

lemma exponent_normal:
  assumes "1 \<le> \<bar>x\<bar>"
  shows "exponent x = \<lfloor>log 2 \<bar>x\<bar>\<rfloor>" and "0 \<le> exponent x"
proof -
  have "0 \<le> log 2 \<bar>x\<bar>" using assms by simp
  then have "0 \<le> \<lfloor>log 2 \<bar>x\<bar>\<rfloor>" by simp
  then show "exponent x = \<lfloor>log 2 \<bar>x\<bar>\<rfloor>" and "0 \<le> exponent x"
    by (simp_all add: exponent_def)
qed

lemma fl_error:
  assumes "1 \<le> x"
  shows "\<bar>fl x - x\<bar> \<le> x * eps"
proof -
  let ?e = "exponent x"
  let ?q = "pow2 (?e - 52)"
  have x0: "x \<noteq> 0" and ax: "\<bar>x\<bar> = x" using assms by auto
  have e: "?e = \<lfloor>log 2 \<bar>x\<bar>\<rfloor>" using exponent_normal(1) [of x] assms by simp
  have lo: "pow2 ?e \<le> x" using floor_log_bounds(1) [OF x0] e ax by simp
  have q: "0 < ?q" by (rule pow2_pos)
  have pe: "pow2 ?e = ?q * 2 ^ 52" by (rule pow2_52)
  have "fl x - x = (of_int (roundHalfEven (x / ?q)) - x / ?q) * ?q"
    using x0 q by (simp add: fl_def algebra_simps)
  then have "\<bar>fl x - x\<bar> = \<bar>of_int (roundHalfEven (x / ?q)) - x / ?q\<bar> * ?q"
    using q by (simp add: abs_mult)
  also have "\<dots> \<le> (1 / 2) * ?q"
    using roundHalfEven_error [of "x / ?q"] q by (intro mult_right_mono) simp_all
  also have "\<dots> = pow2 ?e * eps" by (simp add: pe eps_def)
  also have "\<dots> \<le> x * eps" using lo by (intro mult_right_mono) (simp_all add: eps_def)
  finally show ?thesis .
qed

lemma fl_of_int:
  assumes "\<bar>k\<bar> < 2 ^ 53"
  shows "fl (of_int k) = of_int k"
proof (cases "k = 0")
  case True
  then show ?thesis by (simp add: fl_0)
next
  case False
  let ?x = "real_of_int k"
  let ?e = "exponent ?x"
  have x0: "?x \<noteq> 0" using False by simp
  have one: "1 \<le> \<bar>?x\<bar>" using False by (simp add: of_int_abs [symmetric] del: of_int_abs) 
  have e: "?e = \<lfloor>log 2 \<bar>?x\<bar>\<rfloor>" and e0: "0 \<le> ?e" using exponent_normal [OF one] by simp_all
  have "pow2 ?e \<le> \<bar>?x\<bar>" using floor_log_bounds(1) [OF x0] e by simp
  also have "\<bar>?x\<bar> < 2 ^ 53" using assms by (simp add: of_int_abs [symmetric] del: of_int_abs)
  finally have "pow2 ?e < pow2 53" using pow2_nat [of 53] by simp
  then have e52: "?e \<le> 52" using pow2_mono [of 53 ?e] by (cases "53 \<le> ?e") auto
  define j where "j = nat (52 - ?e)"
  have q: "pow2 (?e - 52) = 1 / 2 ^ j"
    using e52 by (simp add: pow2_def j_def)
  have "?x / pow2 (?e - 52) = of_int (k * 2 ^ j)" by (simp add: q)
  then have "roundHalfEven (?x / pow2 (?e - 52)) = k * 2 ^ j"
    by (simp only: roundHalfEven_of_int)
  then show ?thesis using x0 by (simp add: fl_def q)
qed

lemma fl_nonneg:
  assumes "0 \<le> x"
  shows "0 \<le> fl x"
proof (cases "x = 0")
  case True
  then show ?thesis by (simp add: fl_0)
next
  case False
  have q: "0 < pow2 (exponent x - 52)" by (rule pow2_pos)
  have "0 \<le> x / pow2 (exponent x - 52)" using assms q by simp
  then have "roundHalfEven 0 \<le> roundHalfEven (x / pow2 (exponent x - 52))"
    by (rule roundHalfEven_mono)
  then have "0 \<le> roundHalfEven (x / pow2 (exponent x - 52))"
    using roundHalfEven_of_int [of 0] by simp
  then show ?thesis using False q by (simp add: fl_def)
qed

lemma exponent_mono:
  assumes "0 < x" and "x \<le> y"
  shows "exponent x \<le> exponent y"
proof -
  have "log 2 \<bar>x\<bar> \<le> log 2 \<bar>y\<bar>" using assms by simp
  then have "\<lfloor>log 2 \<bar>x\<bar>\<rfloor> \<le> \<lfloor>log 2 \<bar>y\<bar>\<rfloor>" by (rule floor_mono)
  then show ?thesis by (simp add: exponent_def)
qed

lemma fl_upper:
  assumes "0 < x"
  shows "fl x \<le> pow2 (exponent x + 1)"
proof -
  let ?e = "exponent x"
  let ?q = "pow2 (?e - 52)"
  have x0: "x \<noteq> 0" and ax: "\<bar>x\<bar> = x" using assms by auto
  have q: "0 < ?q" by (rule pow2_pos)
  have "\<lfloor>log 2 \<bar>x\<bar>\<rfloor> + 1 \<le> ?e + 1" by (simp add: exponent_def)
  then have "pow2 (\<lfloor>log 2 \<bar>x\<bar>\<rfloor> + 1) \<le> pow2 (?e + 1)" by (rule pow2_mono)
  with floor_log_bounds(2) [OF x0] ax have "x \<le> pow2 (?e + 1)" by simp
  also have "pow2 (?e + 1) = ?q * 2 ^ 53" by (rule pow2_53)
  finally have "x / ?q \<le> of_int (2 ^ 53)" using q by (simp add: divide_le_eq mult.commute)
  then have "roundHalfEven (x / ?q) \<le> roundHalfEven (of_int (2 ^ 53))"
    by (rule roundHalfEven_mono)
  then have "roundHalfEven (x / ?q) \<le> 2 ^ 53" by (simp only: roundHalfEven_of_int)
  then have "real_of_int (roundHalfEven (x / ?q)) \<le> 2 ^ 53"
    by simp
  then have "real_of_int (roundHalfEven (x / ?q)) * ?q \<le> 2 ^ 53 * ?q"
    using q by (intro mult_right_mono) simp_all
  also have "\<dots> = pow2 (?e + 1)" by (simp add: pow2_53 [of ?e])
  finally show ?thesis using x0 by (simp add: fl_def)
qed

lemma fl_lower:
  assumes "0 < x" and "- 1022 < exponent x"
  shows "pow2 (exponent x) \<le> fl x"
proof -
  let ?e = "exponent x"
  let ?q = "pow2 (?e - 52)"
  have x0: "x \<noteq> 0" and ax: "\<bar>x\<bar> = x" using assms by auto
  have q: "0 < ?q" by (rule pow2_pos)
  have e: "?e = \<lfloor>log 2 \<bar>x\<bar>\<rfloor>" using assms(2) by (simp add: exponent_def max_def split: if_splits)
  have lo: "pow2 ?e \<le> x" using floor_log_bounds(1) [OF x0] e ax by simp
  have pe: "pow2 ?e = ?q * 2 ^ 52" by (rule pow2_52)
  have "of_int (2 ^ 52) \<le> x / ?q" using lo q by (simp add: pe le_divide_eq mult.commute)
  then have "roundHalfEven (of_int (2 ^ 52)) \<le> roundHalfEven (x / ?q)"
    by (rule roundHalfEven_mono)
  then have "2 ^ 52 \<le> roundHalfEven (x / ?q)" by (simp only: roundHalfEven_of_int)
  then have "2 ^ 52 \<le> real_of_int (roundHalfEven (x / ?q))"
    by simp
  then have "2 ^ 52 * ?q \<le> real_of_int (roundHalfEven (x / ?q)) * ?q"
    using q by (intro mult_right_mono) simp_all
  then show ?thesis using x0 by (simp add: fl_def pe mult.commute)
qed

lemma fl_mono:
  assumes "0 \<le> x" and "x \<le> y"
  shows "fl x \<le> fl y"
proof (cases "x = 0")
  case True
  then show ?thesis using fl_nonneg [of y] assms by (simp add: fl_0)
next
  case False
  then have x: "0 < x" and y: "0 < y" using assms by auto
  have "exponent x \<le> exponent y" using x assms(2) by (rule exponent_mono)
  then consider "exponent x = exponent y" | "exponent x < exponent y" by linarith
  then show ?thesis
  proof cases
    case 1
    have q: "0 < pow2 (exponent y - 52)" by (rule pow2_pos)
    have "x / pow2 (exponent y - 52) \<le> y / pow2 (exponent y - 52)"
      using assms(2) q by (simp add: divide_right_mono)
    then have "roundHalfEven (x / pow2 (exponent y - 52)) \<le> roundHalfEven (y / pow2 (exponent y - 52))"
      by (rule roundHalfEven_mono)
    then have "real_of_int (roundHalfEven (x / pow2 (exponent y - 52))) * pow2 (exponent y - 52)
        \<le> real_of_int (roundHalfEven (y / pow2 (exponent y - 52))) * pow2 (exponent y - 52)"
      using q by (intro mult_right_mono) simp_all
    then show ?thesis using x y 1 by (simp add: fl_def)
  next
    case 2
    have "- 1022 \<le> exponent x" by (simp add: exponent_def)
    with 2 have n: "- 1022 < exponent y" by linarith
    have "fl x \<le> pow2 (exponent x + 1)" using x by (rule fl_upper)
    also have "\<dots> \<le> pow2 (exponent y)" using 2 by (intro pow2_mono) simp
    also have "\<dots> \<le> fl y" using y n by (rule fl_lower)
    finally show ?thesis .
  qed
qed

lemma fl_1: "fl 1 = 1"
  using fl_of_int [of 1] by simp

lemma fl_numeral: "numeral n < (2 :: int) ^ 53 \<Longrightarrow> fl (numeral n) = numeral n"
  using fl_of_int [of "numeral n"] by simp


lemma roundInt_exact:
  assumes "\<bar>k\<bar> < 2 ^ 53"
  shows "roundInt k = k"
  by (simp add: roundInt_def fl_of_int [OF assms])

lemma fl_integer: "\<exists>j. fl (of_int k) = of_int j"
proof (cases "\<bar>k\<bar> < 2 ^ 53")
  case True
  then show ?thesis using fl_of_int by blast
next
  case False
  let ?x = "real_of_int k"
  have big: "2 ^ 53 \<le> \<bar>?x\<bar>"
  proof -
    from False have "2 ^ 53 \<le> \<bar>k\<bar>" by simp
    then have "real_of_int (2 ^ 53) \<le> real_of_int \<bar>k\<bar>" by (simp only: of_int_le_iff)
    then show ?thesis by simp
  qed
  then have x0: "?x \<noteq> 0" by auto
  have "pow2 53 \<le> \<bar>?x\<bar>" using big pow2_nat [of 53] by simp
  moreover have "\<bar>?x\<bar> < pow2 (\<lfloor>log 2 \<bar>?x\<bar>\<rfloor> + 1)" using floor_log_bounds(2) [OF x0] .
  ultimately have "pow2 53 < pow2 (\<lfloor>log 2 \<bar>?x\<bar>\<rfloor> + 1)" by linarith
  then have "53 \<le> \<lfloor>log 2 \<bar>?x\<bar>\<rfloor>"
    using pow2_mono [of "\<lfloor>log 2 \<bar>?x\<bar>\<rfloor> + 1" 53] by (cases "53 \<le> \<lfloor>log 2 \<bar>?x\<bar>\<rfloor>") auto
  then have e: "53 \<le> exponent ?x" by (simp add: exponent_def)
  have q: "pow2 (exponent ?x - 52) = of_int (2 ^ nat (exponent ?x - 52))"
    using e by (simp add: pow2_def)
  show ?thesis
    using x0 unfolding fl_def q
    by (simp only: if_False of_int_mult [symmetric]) blast
qed

lemma roundInt_fl: "real_of_int (roundInt k) = fl (of_int k)"
proof -
  from fl_integer [of k] obtain j where "fl (of_int k) = of_int j" ..
  then show ?thesis by (simp add: roundInt_def)
qed

lemma roundInt_mono:
  assumes "0 \<le> a" and "a \<le> b"
  shows "roundInt a \<le> roundInt b"
proof -
  have "fl (of_int a) \<le> fl (of_int b)" using assms by (intro fl_mono) simp_all
  then show ?thesis unfolding roundInt_def by (rule floor_mono)
qed

lemma roundInt_eval:
  assumes "pow2 e \<le> \<bar>real_of_int k\<bar>" and "\<bar>real_of_int k\<bar> < pow2 (e + 1)" and "- 1022 \<le> e"
  shows "roundInt k = \<lfloor>of_int (roundHalfEven (of_int k / pow2 (e - 52))) * pow2 (e - 52)\<rfloor>"
  by (simp only: roundInt_def fl_eval [OF assms])

lemma roundInt_examples:
  "roundInt 9007199254740993 = 9007199254740992"
  "roundInt 90071992547409910 = 90071992547409904"
   apply (simp add: roundInt_eval [of 53] pow2_def roundHalfEven_def)
  apply (simp add: roundInt_eval [of 56] pow2_def roundHalfEven_def)
  done

section \<open>Rating aggregator\<close>

lemma rating_modified:
  "r\<lparr>count := Suc (count r), average := a\<rparr> \<noteq> r"
proof
  assume "r\<lparr>count := Suc (count r), average := a\<rparr> = r"
  then have "count (r\<lparr>count := Suc (count r), average := a\<rparr>) = count r"
    by simp
  then show False by simp
qed

lemma user_modified:
  assumes "r' \<noteq> rating (agentProfile u)"
  shows "u\<lparr>agentProfile := (agentProfile u)\<lparr>rating := r'\<rparr>\<rparr> \<noteq> u"
proof
  assume "u\<lparr>agentProfile := (agentProfile u)\<lparr>rating := r'\<rparr>\<rparr> = u"
  then have "rating (agentProfile (u\<lparr>agentProfile := (agentProfile u)\<lparr>rating := r'\<rparr>\<rparr>))
      = rating (agentProfile u)"
    by simp
  with assms show False by simp
qed

lemma count_incremented:
  assumes "int c + 1 < 2 ^ 53"
  shows "nat (roundInt (int c + 1)) = Suc c"
proof -
  have "\<bar>int c + 1\<bar> < 2 ^ 53" using assms by simp
  from roundInt_exact [OF this] show ?thesis by simp
qed

lemma updateRating_unfold:
  assumes "int (count (rating (agentProfile u))) + 1 < 2 ^ 53"
  shows "updateRating now u x =
     (let u2 = u\<lparr>agentProfile := (agentProfile u)\<lparr>rating :=
                 (rating (agentProfile u))\<lparr>count := Suc (count (rating (agentProfile u))),
                    average := fl (fl (fl (average (rating (agentProfile u)) *
                                real (count (rating (agentProfile u)))) + x)
                               / real (Suc (count (rating (agentProfile u)))))\<rparr>\<rparr>\<rparr>
      in if validateUser u2 then Inr (u2\<lparr>userUpdatedAt := now\<rparr>) else Inl ValidationError)"
proof -
  have ne: "u\<lparr>agentProfile := (agentProfile u)\<lparr>rating :=
                 (rating (agentProfile u))\<lparr>count := Suc (count (rating (agentProfile u))),
                    average := a\<rparr>\<rparr>\<rparr> \<noteq> u" for a
    by (rule user_modified) (rule rating_modified)
  show ?thesis
    unfolding updateRating_def saveUser_def Let_def count_incremented [OF assms]
    apply (subst if_not_P)
     apply (simp add: ne)
    apply simp
    done
qed





















section \<open>Pager\<close>

lemma fl_nonpos:
  assumes "x \<le> 0"
  shows "fl x \<le> 0"
proof (cases "x = 0")
  case True
  then show ?thesis by (simp add: fl_0)
next
  case False
  have q: "0 < pow2 (exponent x - 52)" by (rule pow2_pos)
  have "x / pow2 (exponent x - 52) \<le> 0" using assms q by (simp add: divide_le_0_iff)
  then have "roundHalfEven (x / pow2 (exponent x - 52)) \<le> roundHalfEven 0"
    by (rule roundHalfEven_mono)
  then have "roundHalfEven (x / pow2 (exponent x - 52)) \<le> 0"
    using roundHalfEven_of_int [of 0] by simp
  then have "real_of_int (roundHalfEven (x / pow2 (exponent x - 52))) * pow2 (exponent x - 52) \<le> 0"
    using q by (simp add: mult_le_0_iff)
  then show ?thesis using False by (simp add: fl_def)
qed

lemma roundInt_simps:
  "roundInt 0 = 0" "roundInt 1 = 1"
  "numeral n < (2 :: int) ^ 53 \<Longrightarrow> roundInt (numeral n) = numeral n"
  "numeral n < (2 :: int) ^ 53 \<Longrightarrow> roundInt (- numeral n) = - numeral n"
  by (simp_all add: roundInt_exact)

lemma roundInt_2_53: "roundInt (2 ^ 53) = 2 ^ 53"
  by (simp add: roundInt_eval [of 53] pow2_def roundHalfEven_def)

text \<open>A rounded integer below \<open>2^53\<close> is the integer itself.\<close>

lemma roundInt_small:
  assumes "1 \<le> roundInt k" and "roundInt k < 2 ^ 53"
  shows "roundInt k = k"
proof -
  have pos: "0 < k"
  proof (rule ccontr)
    assume "\<not> 0 < k"
    then have "real_of_int k \<le> 0" by simp
    then have "fl (real_of_int k) \<le> 0" by (rule fl_nonpos)
    then have "roundInt k \<le> 0" by (simp add: roundInt_def)
    with assms(1) show False by simp
  qed
  have "k < 2 ^ 53"
  proof (rule ccontr)
    assume "\<not> k < 2 ^ 53"
    then have "2 ^ 53 \<le> k" by simp
    then have "roundInt (2 ^ 53) \<le> roundInt k" by (intro roundInt_mono) simp_all
    with assms(2) roundInt_2_53 show False by simp
  qed
  with pos have "\<bar>k\<bar> < 2 ^ 53" by simp
  then show ?thesis by (rule roundInt_exact)
qed

lemma parseInt_MV:
  "parseInt s = Some n \<longleftrightarrow> (\<exists>k. parseIntMV s = Some k \<and> n = roundInt k)"
  by (cases "parseIntMV s") (auto simp add: parseInt_def)

lemma isInt_parse:
  assumes "isInt (Some lo) mx s"
  shows "\<exists>n. parseInt s = Some n \<and> lo \<le> n \<and> (case mx of None \<Rightarrow> True | Some hi \<Rightarrow> n \<le> hi)"
  using assms by (auto simp add: isInt_def split: option.splits)

lemma pager_fields:
  "page (pager q) = orDefault (parseIntParam (q ''page'')) 1"
  "limit (pager q) = orDefault (parseIntParam (q ''limit'')) 10"
  by (simp_all add: pager_def Let_def)

lemma pager_page:
  assumes "optional (q ''page'') (isInt (Some 1) None)"
  shows "1 \<le> page (pager q)"
    and "(case q ''page'' of None \<Rightarrow> page (pager q) = 1
          | Some s \<Rightarrow> parseInt s = Some (page (pager q)))"
proof -
  show "1 \<le> page (pager q)"
  proof (cases "q ''page''")
    case None
    then show ?thesis by (simp add: pager_fields parseIntParam_def orDefault_def)
  next
    case (Some s)
    with assms have "isInt (Some 1) None s" by (simp add: optional_def)
    from isInt_parse [OF this] obtain n where "parseInt s = Some n" "1 \<le> n" by auto
    with Some show ?thesis by (simp add: pager_fields parseIntParam_def orDefault_def)
  qed
  show "(case q ''page'' of None \<Rightarrow> page (pager q) = 1
          | Some s \<Rightarrow> parseInt s = Some (page (pager q)))"
  proof (cases "q ''page''")
    case None
    then show ?thesis by (simp add: pager_fields parseIntParam_def orDefault_def)
  next
    case (Some s)
    with assms have "isInt (Some 1) None s" by (simp add: optional_def)
    from isInt_parse [OF this] obtain n where "parseInt s = Some n" "1 \<le> n" by auto
    with Some show ?thesis by (simp add: pager_fields parseIntParam_def orDefault_def)
  qed
qed

lemma pager_limit:
  assumes "optional (q ''limit'') (isInt (Some 1) (Some 50))"
  shows "1 \<le> limit (pager q)" and "limit (pager q) \<le> 50"
    and "(case q ''limit'' of None \<Rightarrow> limit (pager q) = 10
          | Some s \<Rightarrow> parseInt s = Some (limit (pager q)))"
proof -
  have "1 \<le> limit (pager q) \<and> limit (pager q) \<le> 50 \<and>
      (case q ''limit'' of None \<Rightarrow> limit (pager q) = 10
          | Some s \<Rightarrow> parseInt s = Some (limit (pager q)))"
  proof (cases "q ''limit''")
    case None
    then show ?thesis by (simp add: pager_fields parseIntParam_def orDefault_def)
  next
    case (Some s)
    with assms have "isInt (Some 1) (Some 50) s" by (simp add: optional_def)
    from isInt_parse [OF this] obtain n where "parseInt s = Some n" "1 \<le> n" "n \<le> 50" by auto
    with Some show ?thesis by (simp add: pager_fields parseIntParam_def orDefault_def)
  qed
  then show "1 \<le> limit (pager q)" and "limit (pager q) \<le> 50"
    and "(case q ''limit'' of None \<Rightarrow> limit (pager q) = 10
          | Some s \<Rightarrow> parseInt s = Some (limit (pager q)))"
    by simp_all
qed

text \<open>Below \<open>2^53\<close> the number parsed is the number written.\<close>

lemma parsed_exact:
  assumes "(case v of None \<Rightarrow> n = d | Some s \<Rightarrow> parseInt s = Some n)"
    and "1 \<le> n" and "n < 2 ^ 53"
  shows "(case v of None \<Rightarrow> n = d | Some s \<Rightarrow> parseIntMV s = Some n)"
proof (cases v)
  case None
  with assms(1) show ?thesis by simp
next
  case (Some s)
  with assms(1) have "parseInt s = Some n" by simp
  then obtain k where k: "parseIntMV s = Some k" "n = roundInt k"
    unfolding parseInt_MV by blast
  from assms(2,3) k(2) have "roundInt k = k" by (intro roundInt_small) simp_all
  with k Some show ?thesis by simp
qed

lemma pager_skip: "skip (pager q) = roundInt (roundInt (page (pager q) - 1) * limit (pager q))"
  by (simp add: pager_def Let_def)

lemma pager_skip_exact:
  assumes "1 \<le> page (pager q)" and "1 \<le> limit (pager q)"
    and "page (pager q) * limit (pager q) < 2 ^ 53"
  shows "skip (pager q) = (page (pager q) - 1) * limit (pager q)"
    and "page (pager q) < 2 ^ 53"
proof -
  let ?p = "page (pager q)"
  let ?l = "limit (pager q)"
  have "?p * 1 \<le> ?p * ?l" using assms(1,2) by (intro mult_left_mono) simp_all
  with assms(3) show p: "?p < 2 ^ 53" by simp
  have "(?p - 1) * ?l \<le> ?p * ?l" using assms(2) by (intro mult_right_mono) simp_all
  with assms(3) have s: "(?p - 1) * ?l < 2 ^ 53" by simp
  have s0: "0 \<le> (?p - 1) * ?l" using assms(1,2) by simp
  have "roundInt (?p - 1) = ?p - 1" using assms(1) p by (intro roundInt_exact) simp
  moreover have "roundInt ((?p - 1) * ?l) = (?p - 1) * ?l"
    using s s0 by (intro roundInt_exact) simp
  ultimately show "skip (pager q) = (?p - 1) * ?l" by (simp add: pager_skip)
qed

lemma fl_pow2_neg53: "fl (1 / 2 ^ 53) = 1 / 2 ^ 53"
  by (simp add: fl_eval [of "- 53"] pow2_def roundHalfEven_def)

text \<open>The rounded quotient of a count below \<open>2^53\<close> has the ceiling of the exact one.\<close>

lemma pageCount_exact:
  assumes l: "1 \<le> l" "l \<le> 2 ^ 53" and n: "n < 2 ^ 53"
  shows "pageCount n l = \<lceil>real n / real_of_int l\<rceil>"
proof (cases "n = 0")
  case True
  then show ?thesis by (simp add: pageCount_def fl_0)
next
  case False
  let ?x = "real n / real_of_int l"
  let ?k = "\<lceil>?x\<rceil>"
  have lp: "0 < real_of_int l" using l by simp
  have x0: "0 < ?x" using False lp by simp
  have xn: "?x \<le> real n"
  proof -
    have "real n / real_of_int l \<le> real n / 1" using l by (intro divide_left_mono) simp_all
    then show ?thesis by simp
  qed
  have k1: "1 \<le> ?k" using x0 by simp
  have kn: "?k \<le> int n"
  proof -
    have "\<lceil>?x\<rceil> \<le> \<lceil>real n\<rceil>" using xn by (rule ceiling_mono)
    then show ?thesis by simp
  qed
  have kb: "\<bar>?k\<bar> < 2 ^ 53"
  proof -
    have "int n < 2 ^ 53" using n by simp
    with k1 kn show ?thesis by linarith
  qed
  have up: "fl ?x \<le> real_of_int ?k"
  proof -
    have "fl ?x \<le> fl (real_of_int ?k)" using x0 by (intro fl_mono) simp_all
    then show ?thesis using fl_of_int [OF kb] by simp
  qed
  have gap: "real_of_int (?k - 1) + 1 / real_of_int l \<le> ?x"
  proof -
    have "real_of_int (?k - 1) < ?x" by linarith
    then have "real_of_int (?k - 1) * real_of_int l < real n"
      using lp by (simp add: pos_less_divide_eq)
    then have "real_of_int ((?k - 1) * l) < real_of_int (int n)" by simp
    then have "(?k - 1) * l < int n" by (simp only: of_int_less_iff)
    then have "(?k - 1) * l + 1 \<le> int n" by simp
    then have "real_of_int ((?k - 1) * l + 1) \<le> real_of_int (int n)" by (simp only: of_int_le_iff)
    then have "real_of_int (?k - 1) * real_of_int l + 1 \<le> real n" by simp
    then have "(real_of_int (?k - 1) * real_of_int l + 1) / real_of_int l \<le> ?x"
      using lp by (simp add: divide_right_mono)
    then show ?thesis using lp by (simp add: add_divide_distrib)
  qed
  have low: "real_of_int (?k - 1) < fl ?x"
  proof (cases "1 \<le> ?x")
    case True
    from fl_error [OF True] have "?x - ?x * eps \<le> fl ?x" by linarith
    moreover have "?x * eps < 1 / real_of_int l"
    proof -
      have "real n < 2 ^ 53" using n by simp
      then have "real n * eps < 1" by (simp add: eps_def)
      then have "real n * eps / real_of_int l < 1 / real_of_int l"
        using lp by (simp add: divide_strict_right_mono)
      then show ?thesis by simp
    qed
    ultimately show ?thesis using gap by linarith
  next
    case False
    then have "?k \<le> 1" by (simp add: ceiling_le_iff)
    with k1 have k: "?k = 1" by linarith
    have "real_of_int l \<le> 2 ^ 53"
    proof -
      from l(2) have "real_of_int l \<le> real_of_int (2 ^ 53)" by (simp only: of_int_le_iff)
      then show ?thesis by simp
    qed
    then have a: "1 / 2 ^ 53 \<le> 1 / real_of_int l" using lp by (intro divide_left_mono) simp_all
    have "real_of_int (?k - 1) = 0" using k by simp
    with gap have "1 / real_of_int l \<le> ?x" by linarith
    with a have "1 / 2 ^ 53 \<le> ?x" by (rule order_trans)
    then have "fl (1 / 2 ^ 53) \<le> fl ?x" by (intro fl_mono) simp_all
    then have "0 < fl ?x" using fl_pow2_neg53 by simp
    with k show ?thesis by simp
  qed
  have "\<lceil>fl ?x\<rceil> = ?k"
    using up low by (intro ceiling_unique) simp_all
  then show ?thesis by (simp add: pageCount_def)
qed


lemma pageCount_bounds:
  assumes "1 \<le> l"
  shows "int n \<le> \<lceil>real n / real_of_int l\<rceil> * l"
    and "(\<lceil>real n / real_of_int l\<rceil> - 1) * l < int n"
proof -
  let ?x = "real n / real_of_int l"
  have l: "0 < real_of_int l" using assms by simp
  have "?x \<le> real_of_int \<lceil>?x\<rceil>" by (rule le_of_int_ceiling)
  then have "real n \<le> real_of_int \<lceil>?x\<rceil> * real_of_int l"
    by (simp only: pos_divide_le_eq [OF l])
  then have "real_of_int (int n) \<le> real_of_int (\<lceil>?x\<rceil> * l)" by simp
  then show "int n \<le> \<lceil>?x\<rceil> * l" by (simp only: of_int_le_iff)
  have "real_of_int \<lceil>?x\<rceil> - 1 < ?x"
    using ceiling_correct [of ?x] by simp
  then have "(real_of_int \<lceil>?x\<rceil> - 1) * real_of_int l < real n"
    by (simp only: pos_less_divide_eq [OF l])
  then have "real_of_int ((\<lceil>?x\<rceil> - 1) * l) < real_of_int (int n)" by simp
  then show "(\<lceil>?x\<rceil> - 1) * l < int n" by (simp only: of_int_less_iff)
qed

lemma respond_valid:
  assumes "0 \<le> skip pg" and "1 \<le> limit pg"
  shows "respond pg docs =
     Inr \<lparr>res_count = length (take (nat (limit pg)) (drop (nat (skip pg)) docs)),
          res_total = length docs, res_page = page pg,
          res_pages = pageCount (length docs) (limit pg),
          res_items = take (nat (limit pg)) (drop (nat (skip pg)) docs)\<rparr>"
  using assms by (simp add: respond_def skipLimit_def Let_def)

text \<open>
  C2. On the public property listing, a request that passes the validators (page at least
  1, size between 1 and 50, each optional), whose page times size is below \<open>2^53\<close> and
  whose filter matches fewer than \<open>2^53\<close> documents, is answered with the documents at
  offset \<open>(page - 1) * size\<close>, at most \<open>size\<close> of them, and with the page count
  \<open>ceil(total / size)\<close>, the least number of pages of that size that hold \<open>total\<close>
  documents. The page and size used are the numbers written in the request, and 1 and 10
  when they are not given.
\<close>

theorem getProperties_offset_limit_pages:
  assumes "propertiesValidators isFloat q"
    and "propertiesFilter validPattern q = Inr f"
    and "page (pager q) * limit (pager q) < 2 ^ 53"
    and "length (findDocs f (propertiesSort q)) < 2 ^ 53"
  shows "\<exists>r. getProperties isFloat validPattern findDocs q = Inr r \<and>
     1 \<le> page (pager q) \<and> 1 \<le> limit (pager q) \<and> limit (pager q) \<le> 50 \<and>
     (case q ''page'' of None \<Rightarrow> page (pager q) = 1
      | Some s \<Rightarrow> parseIntMV s = Some (page (pager q))) \<and>
     (case q ''limit'' of None \<Rightarrow> limit (pager q) = 10
      | Some s \<Rightarrow> parseIntMV s = Some (limit (pager q))) \<and>
     skip (pager q) = (page (pager q) - 1) * limit (pager q) \<and>
     res_items r = take (nat (limit (pager q)))
                     (drop (nat (skip (pager q))) (findDocs f (propertiesSort q))) \<and>
     res_count r = length (res_items r) \<and>
     int (res_count r) \<le> limit (pager q) \<and>
     res_total r = length (findDocs f (propertiesSort q)) \<and>
     res_page r = page (pager q) \<and>
     res_pages r = \<lceil>real (res_total r) / real_of_int (limit (pager q))\<rceil> \<and>
     int (res_total r) \<le> res_pages r * limit (pager q) \<and>
     (res_pages r - 1) * limit (pager q) < int (res_total r)"
proof -
  let ?pg = "pager q"
  let ?docs = "findDocs f (propertiesSort q)"
  let ?r = "\<lparr>res_count = length (take (nat (limit ?pg)) (drop (nat (skip ?pg)) ?docs)),
          res_total = length ?docs, res_page = page ?pg,
          res_pages = pageCount (length ?docs) (limit ?pg),
          res_items = take (nat (limit ?pg)) (drop (nat (skip ?pg)) ?docs)\<rparr>"
  from assms(1) have vp: "optional (q ''page'') (isInt (Some 1) None)"
    and vl: "optional (q ''limit'') (isInt (Some 1) (Some 50))"
    by (simp_all add: propertiesValidators_def)
  note p = pager_page [where q = q, OF vp] and l = pager_limit [where q = q, OF vl]
  note e = pager_skip_exact [OF p(1) l(1) assms(3)]
  have l53: "limit ?pg < 2 ^ 53" "limit ?pg \<le> 2 ^ 53" using l(2) by simp_all
  have pe: "(case q ''page'' of None \<Rightarrow> page ?pg = 1
      | Some s \<Rightarrow> parseIntMV s = Some (page ?pg))"
    using p(2) p(1) e(2) by (rule parsed_exact)
  have le: "(case q ''limit'' of None \<Rightarrow> limit ?pg = 10
      | Some s \<Rightarrow> parseIntMV s = Some (limit ?pg))"
    using l(3) l(1) l53(1) by (rule parsed_exact)
  have sk: "0 \<le> skip ?pg" using p(1) l(1) by (simp add: e(1))
  have run: "getProperties isFloat validPattern findDocs q = Inr ?r"
    using assms(1,2) respond_valid [OF sk l(1), of ?docs]
    by (simp add: getProperties_def Let_def)
  have cnt: "int (res_count ?r) \<le> limit ?pg" using l(1) by simp
  have pages: "res_pages ?r = \<lceil>real (res_total ?r) / real_of_int (limit ?pg)\<rceil>"
    using pageCount_exact [OF l(1) l53(2) assms(4)] by simp
  note b = pageCount_bounds [OF l(1), of "length ?docs"]
  have b1: "int (res_total ?r) \<le> res_pages ?r * limit ?pg"
    unfolding pages using b(1) by simp
  have b2: "(res_pages ?r - 1) * limit ?pg < int (res_total ?r)"
    unfolding pages using b(2) by simp
  show ?thesis
    apply (rule exI [of _ ?r])
    apply (intro conjI)
    apply (rule run)
    apply (rule p(1))
    apply (rule l(1))
    apply (rule l(2))
    apply (rule pe)
    apply (rule le)
    apply (rule e(1))
    apply simp
    apply simp
    apply (rule cnt)
    apply simp
    apply simp
    apply (rule pages)
    apply (rule b1)
    apply (rule b2)
    done
qed

lemma parseInt_examples:
  "parseInt ''3'' = Some 3" "parseInt ''2'' = Some 2" "parseInt ''0'' = Some 0"
  "parseInt ''100'' = Some 100" "parseInt ''9007199254740993'' = Some 9007199254740992"
  by (simp_all add: parseInt_def parseIntMV_def whiteSpaceLength_def digitValue_def numberOf_def
      roundInt_simps roundInt_examples)

lemma isInt_examples:
  "isInt (Some 1) None ''3''" "isInt (Some 1) (Some 50) ''2''"
  "\<not> isInt (Some 1) None ''0''" "\<not> isInt (Some 1) (Some 50) ''100''"
  "isInt (Some 1) None ''9007199254740993''"
  by (simp_all add: isInt_def intSyntax_def isDigit_def parseInt_examples)

lemma propertiesFilter_bare:
  "q ''type'' = None \<Longrightarrow> q ''listingType'' = None \<Longrightarrow> q ''city'' = None \<Longrightarrow>
   q ''state'' = None \<Longrightarrow> q ''bedrooms'' = None \<Longrightarrow> q ''bathrooms'' = None \<Longrightarrow>
   q ''featured'' = None \<Longrightarrow> q ''minPrice'' = None \<Longrightarrow> q ''maxPrice'' = None \<Longrightarrow>
   q ''search'' = None \<Longrightarrow>
   propertiesFilter validPattern q = Inr [''status'' \<mapsto> Eq ''active'']"
  by (simp add: propertiesFilter_def andThen_def setEq_def setRegExp_def setGteInt_def
      setPrice_def setSearch_def truthy_def)


theorem getProperties_offset_limit_pages_witness:
  "propertiesValidators (\<lambda>lo hi s. True) [''page'' \<mapsto> ''3'', ''limit'' \<mapsto> ''2''] \<and>
   propertiesFilter (\<lambda>s. True) [''page'' \<mapsto> ''3'', ''limit'' \<mapsto> ''2'']
     = Inr [''status'' \<mapsto> Eq ''active''] \<and>
   page (pager [''page'' \<mapsto> ''3'', ''limit'' \<mapsto> ''2''])
     * limit (pager [''page'' \<mapsto> ''3'', ''limit'' \<mapsto> ''2'']) < 2 ^ 53 \<and>
   length [10, 11, 12, 13, 14, 15, 16 :: nat] < 2 ^ 53 \<and>
   getProperties (\<lambda>lo hi s. True) (\<lambda>s. True) (\<lambda>f s. [10, 11, 12, 13, 14, 15, 16 :: nat])
       [''page'' \<mapsto> ''3'', ''limit'' \<mapsto> ''2'']
     = Inr \<lparr>res_count = 2, res_total = 7, res_page = 3, res_pages = 4, res_items = [14, 15]\<rparr> \<and>
   pager [''page'' \<mapsto> ''3'', ''limit'' \<mapsto> ''2''] = \<lparr>page = 3, limit = 2, skip = 4\<rparr>"
proof -
  let ?q = "[''page'' \<mapsto> ''3'', ''limit'' \<mapsto> ''2''] :: query"
  have h1: "propertiesValidators (\<lambda>lo hi s. True) ?q"
    by (simp add: propertiesValidators_def optional_def isInt_examples)
  have h2: "propertiesFilter (\<lambda>s. True) ?q = Inr [''status'' \<mapsto> Eq ''active'']"
    by (rule propertiesFilter_bare) simp_all
  have pg: "pager ?q = \<lparr>page = 3, limit = 2, skip = 4\<rparr>"
    by (simp add: pager_def parseIntParam_def orDefault_def parseInt_examples roundInt_simps)
  have h3: "page (pager ?q) * limit (pager ?q) < 2 ^ 53" by (simp add: pg)
  have h4: "length ((\<lambda>f s. [10, 11, 12, 13, 14, 15, 16 :: nat]) [''status'' \<mapsto> Eq ''active'']
      (propertiesSort ?q)) < 2 ^ 53"
    by simp
  from getProperties_offset_limit_pages [OF h1 h2 h3 h4]
  obtain r where r: "getProperties (\<lambda>lo hi s. True) (\<lambda>s. True)
        (\<lambda>f s. [10, 11, 12, 13, 14, 15, 16 :: nat]) ?q = Inr r"
      "res_items r = take (nat (limit (pager ?q))) (drop (nat (skip (pager ?q)))
          [10, 11, 12, 13, 14, 15, 16])"
      "res_count r = length (res_items r)"
      "res_total r = length [10, 11, 12, 13, 14, 15, 16 :: nat]"
      "res_page r = page (pager ?q)"
      "res_pages r = \<lceil>real (res_total r) / real_of_int (limit (pager ?q))\<rceil>"
    by blast
  have "r = \<lparr>res_count = 2, res_total = 7, res_page = 3, res_pages = 4, res_items = [14, 15]\<rparr>"
    using r(2-6) by (cases r) (simp add: pg)
  with r(1) h1 h2 h3 pg show ?thesis by simp
qed

theorem getProperties_offset_counterexample:
  "propertiesValidators (\<lambda>lo hi s. True) [''page'' \<mapsto> ''9007199254740993''] \<and>
   propertiesFilter (\<lambda>s. True) [''page'' \<mapsto> ''9007199254740993'']
     = Inr [''status'' \<mapsto> Eq ''active''] \<and>
   parseIntMV ''9007199254740993'' = Some 9007199254740993 \<and>
   pager [''page'' \<mapsto> ''9007199254740993'']
     = \<lparr>page = 9007199254740992, limit = 10, skip = 90071992547409904\<rparr> \<and>
   getProperties (\<lambda>lo hi s. True) (\<lambda>s. True) (\<lambda>f s. [10, 11, 12 :: nat])
       [''page'' \<mapsto> ''9007199254740993'']
     = Inr \<lparr>res_count = 0, res_total = 3, res_page = 9007199254740992, res_pages = 1,
            res_items = []\<rparr> \<and>
   skip (pager [''page'' \<mapsto> ''9007199254740993'']) \<noteq> (9007199254740993 - 1) * 10 \<and>
   skip (pager [''page'' \<mapsto> ''9007199254740993''])
     \<noteq> (page (pager [''page'' \<mapsto> ''9007199254740993'']) - 1)
         * limit (pager [''page'' \<mapsto> ''9007199254740993''])"
proof -
  let ?q = "[''page'' \<mapsto> ''9007199254740993''] :: query"
  have h1: "propertiesValidators (\<lambda>lo hi s. True) ?q"
    by (simp add: propertiesValidators_def optional_def isInt_examples)
  have h2: "propertiesFilter (\<lambda>s. True) ?q = Inr [''status'' \<mapsto> Eq ''active'']"
    by (rule propertiesFilter_bare) simp_all
  have mv: "parseIntMV ''9007199254740993'' = Some 9007199254740993"
    by (simp add: parseIntMV_def whiteSpaceLength_def digitValue_def numberOf_def)
  have pg: "pager ?q = \<lparr>page = 9007199254740992, limit = 10, skip = 90071992547409904\<rparr>"
    by (simp add: pager_def parseIntParam_def orDefault_def parseInt_examples roundInt_simps
        roundInt_examples)
  have pc: "pageCount (Suc (Suc (Suc 0))) 10 = 1"
    using pageCount_exact [of 10 "Suc (Suc (Suc 0))"] by simp
  have run: "getProperties (\<lambda>lo hi s. True) (\<lambda>s. True) (\<lambda>f s. [10, 11, 12 :: nat]) ?q
     = Inr \<lparr>res_count = 0, res_total = 3, res_page = 9007199254740992, res_pages = 1,
            res_items = []\<rparr>"
    using h1 by (simp add: getProperties_def h2 pg respond_def skipLimit_def pc)
  have ne: "skip (pager ?q) \<noteq> (9007199254740993 - 1) * 10" by (simp add: pg)
  have ne': "skip (pager ?q) \<noteq> (page (pager ?q) - 1) * limit (pager ?q)" by (simp add: pg)
  from h1 h2 mv pg run ne ne' show ?thesis by (intro conjI)
qed

section \<open>Authentication of the example requests\<close>

lemma requestToken_bearer:
  "requestToken (bearer ''agent-token'') = Some ''agent-token''"
  "requestToken (bearer ''other-token'') = Some ''other-token''"
  "requestToken (bearer ''admin-token'') = Some ''admin-token''"
  "requestToken (bearer ''user-token'') = Some ''user-token''"
  by (simp_all add: requestToken_def bearer_def startsWith_def elemAt_def truthy_def)

lemma demoVerify_simps:
  "demoVerify ''agent-token'' = Some ''a1''"
  "demoVerify ''other-token'' = Some ''a2''"
  "demoVerify ''admin-token'' = Some ''adm''"
  "demoVerify ''user-token'' = Some ''u1''"
  by (simp_all add: demoVerify_def)

lemma demoUsers_simps:
  "users demoDb ''a1'' = Some (newUser ''Asha'' ''agent'' True)"
  "users demoDb ''a2'' = Some (newUser ''Bala'' ''agent'' True)"
  "users demoDb ''adm'' = Some (newUser ''Chitra'' ''admin'' False)"
  "users demoDb ''u1'' = Some (newUser ''Dev'' ''user'' False)"
  by (simp_all add: demoDb_def)

lemma newUser_simps:
  "isActive (newUser n r a) = True" "isAgent (newUser n r a) = a" "role (newUser n r a) = r"
  by (simp_all add: newUser_def)

lemma protect_demo:
  "protect demoVerify (users demoDb) (bearer ''agent-token'')
     = Inr \<lparr>user_id = ''a1'', user_doc = newUser ''Asha'' ''agent'' True\<rparr>"
  "protect demoVerify (users demoDb) (bearer ''other-token'')
     = Inr \<lparr>user_id = ''a2'', user_doc = newUser ''Bala'' ''agent'' True\<rparr>"
  "protect demoVerify (users demoDb) (bearer ''admin-token'')
     = Inr \<lparr>user_id = ''adm'', user_doc = newUser ''Chitra'' ''admin'' False\<rparr>"
  "protect demoVerify (users demoDb) (bearer ''user-token'')
     = Inr \<lparr>user_id = ''u1'', user_doc = newUser ''Dev'' ''user'' False\<rparr>"
  by (simp_all add: protect_def requestToken_bearer truthy_def demoVerify_simps demoUsers_simps
      newUser_simps)

section \<open>Validation of page and size\<close>

lemma getProperties_rejects:
  assumes "(case q ''page'' of None \<Rightarrow> False | Some s \<Rightarrow> \<not> isInt (Some 1) None s) \<or>
           (case q ''limit'' of None \<Rightarrow> False | Some s \<Rightarrow> \<not> isInt (Some 1) (Some 50) s)"
  shows "getProperties isFloat validPattern findDocs q = Inl (400, ''Validation errors'')"
proof -
  have "\<not> (optional (q ''page'') (isInt (Some 1) None) \<and>
            optional (q ''limit'') (isInt (Some 1) (Some 50)))"
    using assms by (cases "q ''page''"; cases "q ''limit''") (simp_all add: optional_def)
  then have "\<not> propertiesValidators isFloat q"
    unfolding propertiesValidators_def by blast
  then show ?thesis by (simp add: getProperties_def)
qed

text \<open>
  C3. The listing of the caller's own properties declares no validators: a page of 0 and
  a size of 100 are not refused. The request is answered with status 200, page 0 is
  replaced by page 1, and all 60 matching documents come back in one page.
\<close>

theorem getMyProperties_out_of_bounds_accepted:
  "getMyProperties demoVerify (\<lambda>f s. replicate 60 ''doc'') demoDb (bearer ''agent-token'')
       [''page'' \<mapsto> ''0'', ''limit'' \<mapsto> ''100'']
     = Inr \<lparr>res_count = 60, res_total = 60, res_page = 1, res_pages = 1,
            res_items = replicate 60 ''doc''\<rparr>"
proof -
  have pg: "pager [''page'' \<mapsto> ''0'', ''limit'' \<mapsto> ''100''] = \<lparr>page = 1, limit = 100, skip = 0\<rparr>"
    by (simp add: pager_def parseIntParam_def orDefault_def parseInt_examples roundInt_simps)
  have ra: "requireAgent \<lparr>user_id = ''a1'', user_doc = newUser ''Asha'' ''agent'' True\<rparr>
      = Inr \<lparr>user_id = ''a1'', user_doc = newUser ''Asha'' ''agent'' True\<rparr>"
    by (simp add: requireAgent_def newUser_simps)
  have pc: "pageCount 60 100 = 1" using pageCount_exact [of 100 60] by simp
  show ?thesis
    by (simp add: getMyProperties_def protect_demo ra pg respond_def skipLimit_def pc)
qed

section \<open>Filter builder\<close>

lemma andThen_Inr: "andThen r k = Inr y \<longleftrightarrow> (\<exists>x. r = Inr x \<and> k x = Inr y)"
  by (cases r) (simp_all add: andThen_def)

lemma setEq_result:
  "setEq key v f = Inr (if truthy v then f(key \<mapsto> Eq (case v of None \<Rightarrow> [] | Some s \<Rightarrow> s)) else f)"
  by (simp add: setEq_def truthy_def split: option.split)

lemma setGteInt_result:
  "setGteInt key v f =
     Inr (if truthy v then f(key \<mapsto> GteInt (parseIntParam v)) else f)"
  by (simp add: setGteInt_def truthy_def parseIntParam_def split: option.split)

lemma setPrice_result:
  "setPrice lo hi f =
     Inr (if truthy lo \<or> truthy hi
          then f(''price.amount'' \<mapsto> Range (if truthy lo then lo else None)
                                           (if truthy hi then hi else None))
          else f)"
  by (simp add: setPrice_def)

lemma setRegExp_result:
  assumes "setRegExp validPattern key v f = Inr g"
  shows "g = (if truthy v then f(key \<mapsto> RegExpI (case v of None \<Rightarrow> [] | Some s \<Rightarrow> s)) else f)"
  using assms
  by (auto simp add: setRegExp_def truthy_def newRegExp_def andThen_def
      split: option.splits if_splits)

lemma setSearch_result:
  assumes "setSearch validPattern v f = Inr g"
  shows "g = (if truthy v
              then (let r = RegExpI (case v of None \<Rightarrow> [] | Some s \<Rightarrow> s)
                    in f(''$or'' \<mapsto> OrGroup [(''title'', r), (''description'', r),
                                               (''address.city'', r), (''address.state'', r)]))
              else f)"
  using assms
  by (auto simp add: setSearch_def truthy_def newRegExp_def andThen_def
      split: option.splits if_splits)

lemma propertiesFilter_steps:
  assumes "propertiesFilter validPattern q = Inr f"
  shows "\<exists>f1 f2 f3 f4 f5 f6 f7 f8.
     f1 = (if truthy (q ''type'')
           then [''status'' \<mapsto> Eq ''active''](''type'' \<mapsto>
                  Eq (case q ''type'' of None \<Rightarrow> [] | Some s \<Rightarrow> s))
           else [''status'' \<mapsto> Eq ''active'']) \<and>
     f2 = (if truthy (q ''listingType'')
           then f1(''listingType'' \<mapsto> Eq (case q ''listingType'' of None \<Rightarrow> [] | Some s \<Rightarrow> s))
           else f1) \<and>
     f3 = (if truthy (q ''city'')
           then f2(''address.city'' \<mapsto> RegExpI (case q ''city'' of None \<Rightarrow> [] | Some s \<Rightarrow> s))
           else f2) \<and>
     f4 = (if truthy (q ''state'')
           then f3(''address.state'' \<mapsto> RegExpI (case q ''state'' of None \<Rightarrow> [] | Some s \<Rightarrow> s))
           else f3) \<and>
     f5 = (if truthy (q ''bedrooms'')
           then f4(''specifications.bedrooms'' \<mapsto> GteInt (parseIntParam (q ''bedrooms'')))
           else f4) \<and>
     f6 = (if truthy (q ''bathrooms'')
           then f5(''specifications.bathrooms'' \<mapsto> GteInt (parseIntParam (q ''bathrooms'')))
           else f5) \<and>
     f7 = (if truthy (q ''minPrice'') \<or> truthy (q ''maxPrice'')
           then f6(''price.amount'' \<mapsto>
                  Range (if truthy (q ''minPrice'') then q ''minPrice'' else None)
                        (if truthy (q ''maxPrice'') then q ''maxPrice'' else None))
           else f6) \<and>
     f8 = (if truthy (q ''search'')
           then (let r = RegExpI (case q ''search'' of None \<Rightarrow> [] | Some s \<Rightarrow> s)
                 in f7(''$or'' \<mapsto> OrGroup [(''title'', r), (''description'', r),
                                             (''address.city'', r), (''address.state'', r)]))
           else f7) \<and>
     f = f8"
proof -
  from assms obtain f3 f4 where
    s3: "setRegExp validPattern ''address.city'' (q ''city'')
           (if truthy (q ''listingType'')
            then (if truthy (q ''type'')
                  then [''status'' \<mapsto> Eq ''active''](''type'' \<mapsto>
                         Eq (case q ''type'' of None \<Rightarrow> [] | Some s \<Rightarrow> s))
                  else [''status'' \<mapsto> Eq ''active''])(''listingType'' \<mapsto>
                    Eq (case q ''listingType'' of None \<Rightarrow> [] | Some s \<Rightarrow> s))
            else (if truthy (q ''type'')
                  then [''status'' \<mapsto> Eq ''active''](''type'' \<mapsto>
                         Eq (case q ''type'' of None \<Rightarrow> [] | Some s \<Rightarrow> s))
                  else [''status'' \<mapsto> Eq ''active''])) = Inr f3"
    and s4: "setRegExp validPattern ''address.state'' (q ''state'') f3 = Inr f4"
    and s8: "setSearch validPattern (q ''search'')
           (if truthy (q ''minPrice'') \<or> truthy (q ''maxPrice'')
            then (if truthy (q ''bathrooms'')
                  then (if truthy (q ''bedrooms'')
                        then f4(''specifications.bedrooms'' \<mapsto> GteInt (parseIntParam (q ''bedrooms'')))
                        else f4)(''specifications.bathrooms'' \<mapsto>
                          GteInt (parseIntParam (q ''bathrooms'')))
                  else (if truthy (q ''bedrooms'')
                        then f4(''specifications.bedrooms'' \<mapsto> GteInt (parseIntParam (q ''bedrooms'')))
                        else f4))(''price.amount'' \<mapsto>
                    Range (if truthy (q ''minPrice'') then q ''minPrice'' else None)
                          (if truthy (q ''maxPrice'') then q ''maxPrice'' else None))
            else (if truthy (q ''bathrooms'')
                  then (if truthy (q ''bedrooms'')
                        then f4(''specifications.bedrooms'' \<mapsto> GteInt (parseIntParam (q ''bedrooms'')))
                        else f4)(''specifications.bathrooms'' \<mapsto>
                          GteInt (parseIntParam (q ''bathrooms'')))
                  else (if truthy (q ''bedrooms'')
                        then f4(''specifications.bedrooms'' \<mapsto> GteInt (parseIntParam (q ''bedrooms'')))
                        else f4))) = Inr f"
    unfolding propertiesFilter_def andThen_Inr setEq_result setGteInt_result setPrice_result
    by (metis (no_types, lifting) Inr_inject)
  from setRegExp_result [OF s3] setRegExp_result [OF s4] setSearch_result [OF s8]
  show ?thesis by (simp only: ex_simps simp_thms) 
qed

lemma table_keys_Nil: "{key. \<exists>param. (param, key) \<in> set [] \<and> T param} = {}"
  by simp

lemma table_keys_Cons:
  "{key. \<exists>param. (param, key) \<in> set ((p, k) # tbl) \<and> T param} =
     (if T p then {k} else {}) \<union> {key. \<exists>param. (param, key) \<in> set tbl \<and> T param}"
  by auto

lemma table_keys_merge:
  "(if a then {k} else {}) \<union> ((if b then {k} else {}) \<union> S) = (if a \<or> b then {k} else {}) \<union> S"
  by auto

lemma propertiesFilter_keys:
  assumes "propertiesFilter validPattern q = Inr f"
  shows "f ''status'' = Some (Eq ''active'')"
    and "\<not> truthy (q ''type'') \<and> \<not> truthy (q ''listingType'') \<and> \<not> truthy (q ''city'') \<and>
         \<not> truthy (q ''state'') \<and> \<not> truthy (q ''bedrooms'') \<and> \<not> truthy (q ''bathrooms'') \<and>
         \<not> truthy (q ''minPrice'') \<and> \<not> truthy (q ''maxPrice'') \<and> \<not> truthy (q ''search'')
         \<Longrightarrow> f = [''status'' \<mapsto> Eq ''active'']"
    and "dom f =
     insert ''status''
       {key. \<exists>param. (param, key) \<in> set [(''type'', ''type''), (''listingType'', ''listingType''),
                 (''city'', ''address.city''), (''state'', ''address.state''),
                 (''bedrooms'', ''specifications.bedrooms''),
                 (''bathrooms'', ''specifications.bathrooms''),
                 (''minPrice'', ''price.amount''), (''maxPrice'', ''price.amount''),
                 (''search'', ''$or'')] \<and> truthy (q param)}"
proof -
  from propertiesFilter_steps [OF assms] obtain f1 f2 f3 f4 f5 f6 f7 where
    f1: "f1 = (if truthy (q ''type'')
           then [''status'' \<mapsto> Eq ''active''](''type'' \<mapsto>
                  Eq (case q ''type'' of None \<Rightarrow> [] | Some s \<Rightarrow> s))
           else [''status'' \<mapsto> Eq ''active''])" and
    f2: "f2 = (if truthy (q ''listingType'')
           then f1(''listingType'' \<mapsto> Eq (case q ''listingType'' of None \<Rightarrow> [] | Some s \<Rightarrow> s))
           else f1)" and
    f3: "f3 = (if truthy (q ''city'')
           then f2(''address.city'' \<mapsto> RegExpI (case q ''city'' of None \<Rightarrow> [] | Some s \<Rightarrow> s))
           else f2)" and
    f4: "f4 = (if truthy (q ''state'')
           then f3(''address.state'' \<mapsto> RegExpI (case q ''state'' of None \<Rightarrow> [] | Some s \<Rightarrow> s))
           else f3)" and
    f5: "f5 = (if truthy (q ''bedrooms'')
           then f4(''specifications.bedrooms'' \<mapsto> GteInt (parseIntParam (q ''bedrooms'')))
           else f4)" and
    f6: "f6 = (if truthy (q ''bathrooms'')
           then f5(''specifications.bathrooms'' \<mapsto> GteInt (parseIntParam (q ''bathrooms'')))
           else f5)" and
    f7: "f7 = (if truthy (q ''minPrice'') \<or> truthy (q ''maxPrice'')
           then f6(''price.amount'' \<mapsto>
                  Range (if truthy (q ''minPrice'') then q ''minPrice'' else None)
                        (if truthy (q ''maxPrice'') then q ''maxPrice'' else None))
           else f6)" and
    f8: "f = (if truthy (q ''search'')
           then (let r = RegExpI (case q ''search'' of None \<Rightarrow> [] | Some s \<Rightarrow> s)
                 in f7(''$or'' \<mapsto> OrGroup [(''title'', r), (''description'', r),
                                             (''address.city'', r), (''address.state'', r)]))
           else f7)"
    by blast
  have d1: "dom f1 = {''status''} \<union> (if truthy (q ''type'') then {''type''} else {})"
    by (auto simp add: f1)
  have d2: "dom f2 = dom f1 \<union> (if truthy (q ''listingType'') then {''listingType''} else {})"
    by (auto simp add: f2)
  have d3: "dom f3 = dom f2 \<union> (if truthy (q ''city'') then {''address.city''} else {})"
    by (auto simp add: f3)
  have d4: "dom f4 = dom f3 \<union> (if truthy (q ''state'') then {''address.state''} else {})"
    by (auto simp add: f4)
  have d5: "dom f5 = dom f4 \<union>
      (if truthy (q ''bedrooms'') then {''specifications.bedrooms''} else {})"
    by (auto simp add: f5)
  have d6: "dom f6 = dom f5 \<union>
      (if truthy (q ''bathrooms'') then {''specifications.bathrooms''} else {})"
    by (auto simp add: f6)
  have d7: "dom f7 = dom f6 \<union>
      (if truthy (q ''minPrice'') \<or> truthy (q ''maxPrice'') then {''price.amount''} else {})"
    by (auto simp add: f7)
  have d8: "dom f = dom f7 \<union> (if truthy (q ''search'') then {''$or''} else {})"
    by (auto simp add: f8 Let_def)
  have tbl: "{key. \<exists>param. (param, key) \<in> set [(''type'', ''type''), (''listingType'', ''listingType''),
                 (''city'', ''address.city''), (''state'', ''address.state''),
                 (''bedrooms'', ''specifications.bedrooms''),
                 (''bathrooms'', ''specifications.bathrooms''),
                 (''minPrice'', ''price.amount''), (''maxPrice'', ''price.amount''),
                 (''search'', ''$or'')] \<and> truthy (q param)} =
      (if truthy (q ''type'') then {''type''} else {}) \<union>
      ((if truthy (q ''listingType'') then {''listingType''} else {}) \<union>
      ((if truthy (q ''city'') then {''address.city''} else {}) \<union>
      ((if truthy (q ''state'') then {''address.state''} else {}) \<union>
      ((if truthy (q ''bedrooms'') then {''specifications.bedrooms''} else {}) \<union>
      ((if truthy (q ''bathrooms'') then {''specifications.bathrooms''} else {}) \<union>
      ((if truthy (q ''minPrice'') \<or> truthy (q ''maxPrice'') then {''price.amount''} else {}) \<union>
      (if truthy (q ''search'') then {''$or''} else {})))))))"
    by (simp only: table_keys_Cons table_keys_Nil table_keys_merge Un_empty_right)
  show "dom f =
     insert ''status''
       {key. \<exists>param. (param, key) \<in> set [(''type'', ''type''), (''listingType'', ''listingType''),
                 (''city'', ''address.city''), (''state'', ''address.state''),
                 (''bedrooms'', ''specifications.bedrooms''),
                 (''bathrooms'', ''specifications.bathrooms''),
                 (''minPrice'', ''price.amount''), (''maxPrice'', ''price.amount''),
                 (''search'', ''$or'')] \<and> truthy (q param)}"
    unfolding tbl d8 d7 d6 d5 d4 d3 d2 d1
    by (simp only: Un_assoc Un_insert_left Un_empty_left)
  have s1: "f1 ''status'' = Some (Eq ''active'')" by (simp add: f1)
  have s2: "f2 ''status'' = Some (Eq ''active'')" by (simp add: f2 s1)
  have s3: "f3 ''status'' = Some (Eq ''active'')" by (simp add: f3 s2)
  have s4: "f4 ''status'' = Some (Eq ''active'')" by (simp add: f4 s3)
  have s5: "f5 ''status'' = Some (Eq ''active'')" by (simp add: f5 s4)
  have s6: "f6 ''status'' = Some (Eq ''active'')" by (simp add: f6 s5)
  have s7: "f7 ''status'' = Some (Eq ''active'')" by (simp add: f7 s6)
  show "f ''status'' = Some (Eq ''active'')" by (simp add: f8 s7 Let_def)
  show "f = [''status'' \<mapsto> Eq ''active'']"
    if "\<not> truthy (q ''type'') \<and> \<not> truthy (q ''listingType'') \<and> \<not> truthy (q ''city'') \<and>
         \<not> truthy (q ''state'') \<and> \<not> truthy (q ''bedrooms'') \<and> \<not> truthy (q ''bathrooms'') \<and>
         \<not> truthy (q ''minPrice'') \<and> \<not> truthy (q ''maxPrice'') \<and> \<not> truthy (q ''search'')"
    using that by (simp add: f8 f7 f6 f5 f4 f3 f2 f1)
qed

lemma propertiesFilter_empty:
  "propertiesFilter validPattern Map.empty = Inr [''status'' \<mapsto> Eq ''active'']"
  by (simp add: propertiesFilter_def andThen_def setEq_def setRegExp_def setGteInt_def
      setPrice_def setSearch_def truthy_def)

lemma myPropertiesFilter_keys:
  "dom (myPropertiesFilter uid q) =
     (if truthy (q ''status'') then {''agent'', ''status''} else {''agent''})"
  "myPropertiesFilter uid q ''agent'' = Some (Eq uid)"
  "myPropertiesFilter uid q ''status'' =
     (if truthy (q ''status'') then map_option Eq (q ''status'') else None)"
  "myPropertiesFilter uid Map.empty = [''agent'' \<mapsto> Eq uid]"
  by (auto simp add: myPropertiesFilter_def truthy_def Let_def split: option.splits)

text \<open>
  C4. A filter the builder of the public listing returns holds the key \<open>status\<close>, with
  the condition \<open>status = active\<close>, and beside it exactly the keys whose request
  parameter is present and not empty; with none of these parameters the filter is the
  default \<open>{status: active}\<close>. The filter of the my-properties listing holds the key
  \<open>agent\<close> with the caller's id, and the key \<open>status\<close> only when a status parameter
  is given.
\<close>

theorem filter_builder_keys:
  assumes "propertiesFilter validPattern q = Inr f"
  shows "dom f =
     insert ''status''
       {key. \<exists>param. (param, key) \<in> set [(''type'', ''type''), (''listingType'', ''listingType''),
                 (''city'', ''address.city''), (''state'', ''address.state''),
                 (''bedrooms'', ''specifications.bedrooms''),
                 (''bathrooms'', ''specifications.bathrooms''),
                 (''minPrice'', ''price.amount''), (''maxPrice'', ''price.amount''),
                 (''search'', ''$or'')] \<and> truthy (q param)} \<and>
     f ''status'' = Some (Eq ''active'') \<and>
     (\<not> truthy (q ''type'') \<and> \<not> truthy (q ''listingType'') \<and> \<not> truthy (q ''city'') \<and>
      \<not> truthy (q ''state'') \<and> \<not> truthy (q ''bedrooms'') \<and> \<not> truthy (q ''bathrooms'') \<and>
      \<not> truthy (q ''minPrice'') \<and> \<not> truthy (q ''maxPrice'') \<and> \<not> truthy (q ''search'')
      \<longrightarrow> f = [''status'' \<mapsto> Eq ''active'']) \<and>
     propertiesFilter validPattern Map.empty = Inr [''status'' \<mapsto> Eq ''active''] \<and>
     dom (myPropertiesFilter uid q) =
       (if truthy (q ''status'') then {''agent'', ''status''} else {''agent''}) \<and>
     myPropertiesFilter uid q ''agent'' = Some (Eq uid) \<and>
     myPropertiesFilter uid q ''status'' =
       (if truthy (q ''status'') then map_option Eq (q ''status'') else None) \<and>
     myPropertiesFilter uid Map.empty = [''agent'' \<mapsto> Eq uid]"
proof -
  note k = propertiesFilter_keys [OF assms]
  show ?thesis
    apply (intro conjI impI)
           apply (rule k(3))
          apply (rule k(1))
         apply (rule k(2), assumption)
        apply (rule propertiesFilter_empty)
       apply (rule myPropertiesFilter_keys(1))
      apply (rule myPropertiesFilter_keys(2))
     apply (rule myPropertiesFilter_keys(3))
    apply (rule myPropertiesFilter_keys(4))
    done
qed

theorem filter_builder_keys_witness:
  "propertiesFilter (\<lambda>s. True) [''city'' \<mapsto> ''Delhi'', ''minPrice'' \<mapsto> ''100000'']
     = Inr [''status'' \<mapsto> Eq ''active'', ''address.city'' \<mapsto> RegExpI ''Delhi'',
            ''price.amount'' \<mapsto> Range (Some ''100000'') None] \<and>
   dom [''status'' \<mapsto> Eq ''active'', ''address.city'' \<mapsto> RegExpI ''Delhi'',
        ''price.amount'' \<mapsto> Range (Some ''100000'') None]
     = {''status'', ''address.city'', ''price.amount''} \<and>
   dom (myPropertiesFilter ''a1'' [''city'' \<mapsto> ''Delhi'', ''minPrice'' \<mapsto> ''100000''])
     = {''agent''} \<and>
   myPropertiesFilter ''a1'' [''city'' \<mapsto> ''Delhi'', ''minPrice'' \<mapsto> ''100000''] ''status'' = None"
proof -
  let ?q = "[''city'' \<mapsto> ''Delhi'', ''minPrice'' \<mapsto> ''100000''] :: query"
  let ?f = "[''status'' \<mapsto> Eq ''active'', ''address.city'' \<mapsto> RegExpI ''Delhi'',
            ''price.amount'' \<mapsto> Range (Some ''100000'') None]"
  have t: "truthy (?q ''type'') = False" "truthy (?q ''listingType'') = False"
      "truthy (?q ''city'') = True" "truthy (?q ''state'') = False"
      "truthy (?q ''bedrooms'') = False" "truthy (?q ''bathrooms'') = False"
      "truthy (?q ''minPrice'') = True" "truthy (?q ''maxPrice'') = False"
      "truthy (?q ''search'') = False" "truthy (?q ''status'') = False"
    by (simp_all add: truthy_def)
  have h: "propertiesFilter (\<lambda>s. True) ?q = Inr ?f"
    by (simp add: propertiesFilter_def andThen_def setEq_def setRegExp_def setGteInt_def
        setPrice_def setSearch_def truthy_def newRegExp_def)
  note inst = filter_builder_keys [OF h, of "''a1''", unfolded table_keys_Cons table_keys_Nil t]
  from inst have d: "dom ?f = {''status'', ''address.city'', ''price.amount''}"
    by (simp only: if_True if_False Un_empty_left Un_empty_right Un_insert_left simp_thms)
  from inst have m: "dom (myPropertiesFilter ''a1'' ?q) = {''agent''}"
    by (simp only: if_True if_False simp_thms)
  from inst have n: "myPropertiesFilter ''a1'' ?q ''status'' = None"
    by (simp only: if_True if_False simp_thms)
  from h d m n show ?thesis by (intro conjI)
qed

section \<open>Sort resolver\<close>

lemma propertiesSort_default:
  "\<not> truthy (q ''sortBy'') \<Longrightarrow> propertiesSort q = [(''featured'', - 1), (''createdAt'', - 1)]"
  by (simp add: propertiesSort_def)

lemma agentsSort_default:
  "\<not> truthy (q ''sortBy'') \<Longrightarrow>
   agentsSort q = [(''agentProfile.rating.average'', - 1), (''agentProfile.totalTransactions'', - 1)]"
  by (simp add: agentsSort_def)

lemma propertiesSort_nested:
  "q ''sortBy'' = Some ''price'' \<Longrightarrow> propertiesSort q = [(''price.amount'', sortOrderOf q)]"
  "q ''sortBy'' = Some ''area'' \<Longrightarrow>
     propertiesSort q = [(''specifications.area.value'', sortOrderOf q)]"
  by (simp_all add: propertiesSort_def truthy_def)

lemma agentsSort_nested:
  "q ''sortBy'' = Some ''rating'' \<Longrightarrow>
     agentsSort q = [(''agentProfile.rating.average'', sortOrderOf q)]"
  "q ''sortBy'' = Some ''experience'' \<Longrightarrow>
     agentsSort q = [(''agentProfile.experience'', sortOrderOf q)]"
  "q ''sortBy'' = Some ''transactions'' \<Longrightarrow>
     agentsSort q = [(''agentProfile.totalTransactions'', sortOrderOf q)]"
  by (simp_all add: agentsSort_def truthy_def)

lemma sort_plain:
  "q ''sortBy'' = Some s \<Longrightarrow> s \<noteq> [] \<Longrightarrow> s \<noteq> ''price'' \<Longrightarrow> s \<noteq> ''area'' \<Longrightarrow>
     propertiesSort q = [(s, sortOrderOf q)]"
  "q ''sortBy'' = Some s \<Longrightarrow> s \<noteq> [] \<Longrightarrow> s \<noteq> ''rating'' \<Longrightarrow> s \<noteq> ''experience'' \<Longrightarrow>
     s \<noteq> ''transactions'' \<Longrightarrow> agentsSort q = [(s, sortOrderOf q)]"
  by (simp_all add: propertiesSort_def agentsSort_def truthy_def)

text \<open>
  C5. Without a sort key (absent or empty) the property listing is ordered by
  \<open>featured\<close> descending and then \<open>createdAt\<close> descending, and the agent listing by
  rating average descending and then total transactions descending. With a sort key the
  ordering has one field, in the requested direction (ascending for \<open>asc\<close>, descending
  otherwise): \<open>price\<close> and \<open>area\<close> of a property and \<open>rating\<close>, \<open>experience\<close> and
  \<open>transactions\<close> of an agent are mapped to their nested field paths, and any other key
  names its own field.
\<close>

theorem sort_resolver:
  "(\<not> truthy (q ''sortBy'') \<longrightarrow>
      propertiesSort q = [(''featured'', - 1), (''createdAt'', - 1)] \<and>
      agentsSort q = [(''agentProfile.rating.average'', - 1),
                      (''agentProfile.totalTransactions'', - 1)]) \<and>
   (q ''sortBy'' = Some ''price'' \<longrightarrow> propertiesSort q = [(''price.amount'', sortOrderOf q)]) \<and>
   (q ''sortBy'' = Some ''area'' \<longrightarrow>
      propertiesSort q = [(''specifications.area.value'', sortOrderOf q)]) \<and>
   (q ''sortBy'' = Some ''rating'' \<longrightarrow>
      agentsSort q = [(''agentProfile.rating.average'', sortOrderOf q)]) \<and>
   (q ''sortBy'' = Some ''experience'' \<longrightarrow>
      agentsSort q = [(''agentProfile.experience'', sortOrderOf q)]) \<and>
   (q ''sortBy'' = Some ''transactions'' \<longrightarrow>
      agentsSort q = [(''agentProfile.totalTransactions'', sortOrderOf q)]) \<and>
   (\<forall>s. q ''sortBy'' = Some s \<and> s \<noteq> [] \<and> s \<noteq> ''price'' \<and> s \<noteq> ''area'' \<longrightarrow>
      propertiesSort q = [(s, sortOrderOf q)]) \<and>
   (\<forall>s. q ''sortBy'' = Some s \<and> s \<noteq> [] \<and> s \<noteq> ''rating'' \<and> s \<noteq> ''experience'' \<and>
        s \<noteq> ''transactions'' \<longrightarrow> agentsSort q = [(s, sortOrderOf q)]) \<and>
   sortOrderOf q = (if q ''sortOrder'' = Some ''asc'' then 1 else - 1)"
  apply (intro conjI impI allI)
           apply (erule propertiesSort_default)
          apply (erule agentsSort_default)
         apply (erule propertiesSort_nested(1))
        apply (erule propertiesSort_nested(2))
       apply (erule agentsSort_nested(1))
      apply (erule agentsSort_nested(2))
     apply (erule agentsSort_nested(3))
    apply (elim conjE, erule (3) sort_plain(1))
   apply (elim conjE, erule (4) sort_plain(2))
  apply (rule sortOrderOf_def)
  done

theorem sort_resolver_witness:
  "\<not> truthy (Map.empty ''sortBy'') \<and>
   propertiesSort Map.empty = [(''featured'', - 1), (''createdAt'', - 1)] \<and>
   agentsSort Map.empty = [(''agentProfile.rating.average'', - 1),
                           (''agentProfile.totalTransactions'', - 1)] \<and>
   [''sortBy'' \<mapsto> ''price'', ''sortOrder'' \<mapsto> ''asc''] ''sortBy'' = Some ''price'' \<and>
   propertiesSort [''sortBy'' \<mapsto> ''price'', ''sortOrder'' \<mapsto> ''asc''] = [(''price.amount'', 1)] \<and>
   [''sortBy'' \<mapsto> ''experience''] ''sortBy'' = Some ''experience'' \<and>
   agentsSort [''sortBy'' \<mapsto> ''experience''] = [(''agentProfile.experience'', - 1)]"
proof -
  have e: "\<not> truthy ((Map.empty :: query) ''sortBy'')" by (simp add: truthy_def)
  have p: "([''sortBy'' \<mapsto> ''price'', ''sortOrder'' \<mapsto> ''asc''] :: query) ''sortBy'' = Some ''price''"
    by simp
  have x: "([''sortBy'' \<mapsto> ''experience''] :: query) ''sortBy'' = Some ''experience''"
    by simp
  from sort_resolver [of Map.empty] e
  have a: "propertiesSort Map.empty = [(''featured'', - 1), (''createdAt'', - 1)]"
    and b: "agentsSort Map.empty = [(''agentProfile.rating.average'', - 1),
                           (''agentProfile.totalTransactions'', - 1)]"
    by blast+
  from sort_resolver [of "[''sortBy'' \<mapsto> ''price'', ''sortOrder'' \<mapsto> ''asc'']"] p
  have "propertiesSort [''sortBy'' \<mapsto> ''price'', ''sortOrder'' \<mapsto> ''asc'']
      = [(''price.amount'', sortOrderOf [''sortBy'' \<mapsto> ''price'', ''sortOrder'' \<mapsto> ''asc''])]"
    by blast
  then have c: "propertiesSort [''sortBy'' \<mapsto> ''price'', ''sortOrder'' \<mapsto> ''asc'']
      = [(''price.amount'', 1)]"
    by (simp add: sortOrderOf_def)
  from sort_resolver [of "[''sortBy'' \<mapsto> ''experience'']"] x
  have "agentsSort [''sortBy'' \<mapsto> ''experience'']
      = [(''agentProfile.experience'', sortOrderOf [''sortBy'' \<mapsto> ''experience''])]"
    by blast
  then have d: "agentsSort [''sortBy'' \<mapsto> ''experience''] = [(''agentProfile.experience'', - 1)]"
    by (simp add: sortOrderOf_def)
  from e a b p c x d show ?thesis by (intro conjI)
qed

section \<open>Status update\<close>

lemma saveProperty_status: "status (saveProperty now p (p\<lparr>status := s\<rparr>)) = s"
proof (cases "p\<lparr>status := s\<rparr> = p")
  case True
  then have "status (p\<lparr>status := s\<rparr>) = status p" by simp
  then have "status p = s" by simp
  with True show ?thesis by (simp add: saveProperty_def)
next
  case False
  then show ?thesis by (simp add: saveProperty_def)
qed

lemma putStatus_accepts:
  assumes "protect jwtVerify (users d) c = Inr ru"
    and "properties d propertyId = Some p"
    and "s \<in> set statuses"
    and "agent p = user_id ru \<or> role (user_doc ru) = ''admin''"
  shows "putStatus jwtVerify now d c propertyId (Some s) =
     (Inr (saveProperty now p (p\<lparr>status := s\<rparr>)),
      d\<lparr>properties := (properties d)(propertyId \<mapsto> saveProperty now p (p\<lparr>status := s\<rparr>))\<rparr>)"
  using assms by (auto simp add: putStatus_def isIn_def Let_def)

lemma putStatus_refuses:
  assumes "protect jwtVerify (users d) c = Inr ru"
    and "properties d propertyId = Some p"
  shows "putStatus jwtVerify now d c propertyId None = (Inl (400, ''Validation errors''), d)"
    and "s \<notin> set statuses \<Longrightarrow>
         putStatus jwtVerify now d c propertyId (Some s) = (Inl (400, ''Validation errors''), d)"
    and "s \<in> set statuses \<Longrightarrow> agent p \<noteq> user_id ru \<Longrightarrow> role (user_doc ru) \<noteq> ''admin'' \<Longrightarrow>
         putStatus jwtVerify now d c propertyId (Some s) =
           (Inl (403, ''Not authorized to update this property''), d)"
  using assms by (simp_all add: putStatus_def isIn_def)

text \<open>
  C6. For an authenticated requester and an existing property, whatever its current
  status, the status update answers 200 exactly when the new status is one of the six of
  the enumeration and the requester is the owning agent or an admin; the property is then
  stored with the new status. A status outside the enumeration, or none, is answered 400,
  and a requester who is neither the owner nor an admin 403, with the database
  unchanged.
\<close>

theorem putStatus_any_transition:
  assumes "protect jwtVerify (users d) c = Inr ru"
    and "properties d propertyId = Some p"
  shows "(httpStatus (fst (putStatus jwtVerify now d c propertyId bodyStatus)) = 200 \<longleftrightarrow>
            (\<exists>s. bodyStatus = Some s \<and> s \<in> set statuses) \<and>
            (agent p = user_id ru \<or> role (user_doc ru) = ''admin'')) \<and>
         (\<forall>s. s \<in> set statuses \<and> (agent p = user_id ru \<or> role (user_doc ru) = ''admin'') \<longrightarrow>
            (\<exists>p'. putStatus jwtVerify now d c propertyId (Some s) =
                    (Inr p', d\<lparr>properties := (properties d)(propertyId \<mapsto> p')\<rparr>) \<and>
                  status p' = s)) \<and>
         (httpStatus (fst (putStatus jwtVerify now d c propertyId bodyStatus)) \<noteq> 200 \<longrightarrow>
            snd (putStatus jwtVerify now d c propertyId bodyStatus) = d \<and>
            httpStatus (fst (putStatus jwtVerify now d c propertyId bodyStatus)) =
              (if (\<exists>s. bodyStatus = Some s \<and> s \<in> set statuses) then 403 else 400))"
proof -
  let ?ok = "agent p = user_id ru \<or> role (user_doc ru) = ''admin''"
  have acc: "\<exists>p'. putStatus jwtVerify now d c propertyId (Some s) =
                    (Inr p', d\<lparr>properties := (properties d)(propertyId \<mapsto> p')\<rparr>) \<and>
                  status p' = s"
    if "s \<in> set statuses" and "?ok" for s
    using putStatus_accepts [OF assms that, of now] saveProperty_status [of now p s] by blast
  have cases: "(bodyStatus = None) \<or> (\<exists>s. bodyStatus = Some s \<and> s \<notin> set statuses) \<or>
      (\<exists>s. bodyStatus = Some s \<and> s \<in> set statuses \<and> \<not> ?ok) \<or>
      (\<exists>s. bodyStatus = Some s \<and> s \<in> set statuses \<and> ?ok)"
    by (cases bodyStatus) auto
  then consider
      (none) "bodyStatus = None"
    | (bad) s where "bodyStatus = Some s" "s \<notin> set statuses"
    | (forbidden) s where "bodyStatus = Some s" "s \<in> set statuses" "\<not> ?ok"
    | (good) s where "bodyStatus = Some s" "s \<in> set statuses" "?ok"
    by blast
  then have main: "(httpStatus (fst (putStatus jwtVerify now d c propertyId bodyStatus)) = 200 \<longleftrightarrow>
            (\<exists>s. bodyStatus = Some s \<and> s \<in> set statuses) \<and> ?ok) \<and>
         (httpStatus (fst (putStatus jwtVerify now d c propertyId bodyStatus)) \<noteq> 200 \<longrightarrow>
            snd (putStatus jwtVerify now d c propertyId bodyStatus) = d \<and>
            httpStatus (fst (putStatus jwtVerify now d c propertyId bodyStatus)) =
              (if (\<exists>s. bodyStatus = Some s \<and> s \<in> set statuses) then 403 else 400))"
  proof cases
    case none
    then show ?thesis
      using putStatus_refuses(1) [OF assms, of now] by (simp add: httpStatus_def)
  next
    case bad
    then show ?thesis
      using putStatus_refuses(2) [OF assms bad(2), of now] by (simp add: httpStatus_def)
  next
    case forbidden
    then show ?thesis
      using putStatus_refuses(3) [OF assms forbidden(2), of now] by (simp add: httpStatus_def)
  next
    case good
    then show ?thesis
      using putStatus_accepts [OF assms good(2,3), of now] by (simp add: httpStatus_def)
  qed
  from main acc show ?thesis by blast
qed

lemma demoProperty_simps:
  "properties demoDb ''p1'' = Some demoProperty"
  "agent demoProperty = ''a1''"
  "status demoProperty = ''sold''"
  "images demoProperty = demoImages"
  "views demoProperty = 41"
  "impressions (analytics demoProperty) = 17"
  "updatedAt demoProperty = 2000"
  by (simp_all add: demoDb_def demoProperty_def)

theorem putStatus_any_transition_witness:
  "protect demoVerify (users demoDb) (bearer ''agent-token'')
     = Inr \<lparr>user_id = ''a1'', user_doc = newUser ''Asha'' ''agent'' True\<rparr> \<and>
   properties demoDb ''p1'' = Some demoProperty \<and>
   status demoProperty = ''sold'' \<and> ''active'' \<in> set statuses \<and> agent demoProperty = ''a1'' \<and>
   httpStatus (fst (putStatus demoVerify 3000 demoDb (bearer ''agent-token'') ''p1''
                      (Some ''active''))) = 200 \<and>
   (\<exists>p'. putStatus demoVerify 3000 demoDb (bearer ''agent-token'') ''p1'' (Some ''active'') =
            (Inr p', demoDb\<lparr>properties := (properties demoDb)(''p1'' \<mapsto> p')\<rparr>) \<and>
          status p' = ''active'')"
proof -
  let ?ru = "\<lparr>user_id = ''a1'', user_doc = newUser ''Asha'' ''agent'' True\<rparr>"
  have s: "''active'' \<in> set statuses" by (simp add: statuses_def)
  have o: "agent demoProperty = user_id ?ru \<or> role (user_doc ?ru) = ''admin''"
    by (simp add: demoProperty_simps)
  note t = putStatus_any_transition [OF protect_demo(1) demoProperty_simps(1),
      where now = 3000 and bodyStatus = "Some ''active''"]
  from t s o have a: "httpStatus (fst (putStatus demoVerify 3000 demoDb (bearer ''agent-token'')
      ''p1'' (Some ''active''))) = 200"
    by blast
  from t s o have b: "\<exists>p'. putStatus demoVerify 3000 demoDb (bearer ''agent-token'') ''p1''
        (Some ''active'') = (Inr p', demoDb\<lparr>properties := (properties demoDb)(''p1'' \<mapsto> p')\<rparr>) \<and>
      status p' = ''active''"
    by blast
  from protect_demo(1) demoProperty_simps(1,2,3) s a b show ?thesis by (intro conjI)
qed

section \<open>Image list\<close>

lemma findIndex_Some:
  "findIndex P xs = Some i \<Longrightarrow> i < length xs \<and> P (xs ! i)"
proof (induction xs arbitrary: i)
  case Nil
  then show ?case by simp
next
  case (Cons x xs)
  show ?case
  proof (cases "P x")
    case True
    with Cons.prems show ?thesis by simp
  next
    case False
    with Cons.prems obtain j where j: "findIndex P xs = Some j" "i = Suc j" by auto
    from Cons.IH [OF j(1)] j(2) show ?thesis by simp
  qed
qed

lemma primaryCount_simps:
  "primaryCount [] = 0"
  "primaryCount (x # xs) = (if isPrimary x then 1 else 0) + primaryCount xs"
  "primaryCount (xs @ ys) = primaryCount xs + primaryCount ys"
  by (simp_all add: primaryCount_def)

lemma primaryCount_cleared: "primaryCount (map (\<lambda>img. img\<lparr>isPrimary := False\<rparr>) xs) = 0"
  by (induction xs) (simp_all add: primaryCount_simps)

lemma primaryCount_update:
  "i < length xs \<Longrightarrow>
   primaryCount (xs[i := y]) + (if isPrimary (xs ! i) then 1 else 0) =
     primaryCount xs + (if isPrimary y then 1 else 0)"
proof (induction xs arbitrary: i)
  case Nil
  then show ?case by simp
next
  case (Cons x xs)
  show ?case
  proof (cases i)
    case 0
    then show ?thesis by (simp add: primaryCount_simps)
  next
    case (Suc j)
    with Cons.prems have "j < length xs" by simp
    from Cons.IH [OF this] Suc show ?thesis by (simp add: primaryCount_simps)
  qed
qed

lemma primaryCount_splice:
  assumes "i < length xs"
  shows "primaryCount (take i xs @ drop (Suc i) xs) + (if isPrimary (xs ! i) then 1 else 0) =
     primaryCount xs"
proof -
  have "primaryCount xs = primaryCount (take i xs @ xs ! i # drop (Suc i) xs)"
    using id_take_nth_drop [OF assms] by simp
  then show ?thesis by (simp add: primaryCount_simps)
qed

lemma uploadAll_primaryCount:
  "uploadAll property captions newId index files = Inr new \<Longrightarrow>
   primaryCount new = (if index = 0 \<and> length (images property) = 0 \<and> files \<noteq> [] then 1 else 0)"
proof (induction files arbitrary: index new)
  case Nil
  then show ?case by (simp add: primaryCount_simps)
next
  case (Cons r rs)
  from Cons.prems obtain res rest where r: "r = Some res"
      and rest: "uploadAll property captions newId (Suc index) rs = Inr rest"
      and new: "new = uploadedImage property captions newId index res # rest"
    by (cases r) (auto split: sum.splits)
  from Cons.IH [OF rest] have "primaryCount rest = 0" by simp
  with new show ?case by (simp add: primaryCount_simps uploadedImage_def)
qed

lemma saveProperty_images: "images (saveProperty now loaded p) = images p"
  by (simp add: saveProperty_def)

lemma postPropertyImages_db:
  assumes "properties d propertyId = Some p0"
  shows "snd (postPropertyImages jwtVerify now d c propertyId files captions newId) = d \<or>
     (\<exists>new. uploadAll p0 captions newId 0 files = Inr new \<and>
        snd (postPropertyImages jwtVerify now d c propertyId files captions newId) =
          d\<lparr>properties := (properties d)(propertyId \<mapsto>
               saveProperty now p0 (p0\<lparr>images := images p0 @ new\<rparr>))\<rparr>)"
  using assms
  by (auto simp add: postPropertyImages_def Let_def split: sum.splits option.splits)

lemma putPropertyImage_db:
  assumes "properties d propertyId = Some p0"
  shows "snd (putPropertyImage jwtVerify now d c propertyId imageId bodyCaption primary) = d \<or>
     (\<exists>i imgs1. findIndex (\<lambda>img. image_id img = imageId) (images p0) = Some i \<and>
        imgs1 = (case bodyCaption of
                   None \<Rightarrow> images p0
                 | Some cap \<Rightarrow> (images p0)[i := (images p0 ! i)\<lparr>caption := Some cap\<rparr>]) \<and>
        snd (putPropertyImage jwtVerify now d c propertyId imageId bodyCaption primary) =
          d\<lparr>properties := (properties d)(propertyId \<mapsto>
               saveProperty now p0
                 (p0\<lparr>images :=
                    (if primary
                     then (map (\<lambda>img. img\<lparr>isPrimary := False\<rparr>) imgs1)
                            [i := (map (\<lambda>img. img\<lparr>isPrimary := False\<rparr>) imgs1 ! i)\<lparr>isPrimary := True\<rparr>]
                     else imgs1)\<rparr>))\<rparr>)"
  using assms
  by (auto simp add: putPropertyImage_def Let_def split: sum.splits option.splits)

lemma deletePropertyImage_db:
  assumes "properties d propertyId = Some p0"
  shows "fst (snd (deletePropertyImage jwtVerify destroyOk now d c propertyId imageId)) = d \<or>
     (\<exists>i spliced. findIndex (\<lambda>img. image_id img = imageId) (images p0) = Some i \<and>
        spliced = take i (images p0) @ drop (Suc i) (images p0) \<and>
        fst (snd (deletePropertyImage jwtVerify destroyOk now d c propertyId imageId)) =
          d\<lparr>properties := (properties d)(propertyId \<mapsto>
               saveProperty now p0
                 (p0\<lparr>images :=
                    (if isPrimary (images p0 ! i) \<and> length spliced > 0
                     then (case spliced of [] \<Rightarrow> [] | x # xs \<Rightarrow> x\<lparr>isPrimary := True\<rparr> # xs)
                     else spliced)\<rparr>))\<rparr>)"
  using assms
  by (auto simp add: deletePropertyImage_def Let_def split: sum.splits option.splits)

lemma promote_primaryCount:
  assumes "primaryCount spliced = 0" and "spliced \<noteq> []"
  shows "primaryCount (case spliced of [] \<Rightarrow> [] | x # xs \<Rightarrow> x\<lparr>isPrimary := True\<rparr> # xs) = 1"
    and "isPrimary (hd (case spliced of [] \<Rightarrow> [] | x # xs \<Rightarrow> x\<lparr>isPrimary := True\<rparr> # xs))"
    and "length (case spliced of [] \<Rightarrow> [] | x # xs \<Rightarrow> x\<lparr>isPrimary := True\<rparr> # xs) = length spliced"
  using assms by (cases spliced; simp add: primaryCount_simps split: if_splits)+

lemma post_single_primary:
  assumes "properties d propertyId = Some p0" and "primaryCount (images p0) \<le> 1"
  shows "\<exists>p'. properties (snd (postPropertyImages jwtVerify now d c propertyId files captions newId))
            propertyId = Some p' \<and> primaryCount (images p') \<le> 1"
proof -
  from postPropertyImages_db [OF assms(1), of jwtVerify now c files captions newId]
  show ?thesis
  proof (elim disjE exE conjE)
    assume "snd (postPropertyImages jwtVerify now d c propertyId files captions newId) = d"
    with assms show ?thesis by simp
  next
    fix new
    assume u: "uploadAll p0 captions newId 0 files = Inr new"
      and s: "snd (postPropertyImages jwtVerify now d c propertyId files captions newId) =
          d\<lparr>properties := (properties d)(propertyId \<mapsto>
               saveProperty now p0 (p0\<lparr>images := images p0 @ new\<rparr>))\<rparr>"
    have "primaryCount (images p0 @ new) \<le> 1"
    proof (cases "images p0")
      case Nil
      then show ?thesis
        using uploadAll_primaryCount [OF u] by (simp add: primaryCount_simps)
    next
      case (Cons x xs)
      then have "primaryCount new = 0" using uploadAll_primaryCount [OF u] by simp
      with assms(2) show ?thesis by (simp add: primaryCount_simps(3))
    qed
    with s show ?thesis by (simp add: saveProperty_images)
  qed
qed

lemma put_single_primary:
  assumes "properties d propertyId = Some p0" and "primaryCount (images p0) \<le> 1"
  shows "\<exists>p'. properties (snd (putPropertyImage jwtVerify now d c propertyId imageId bodyCaption
            primary)) propertyId = Some p' \<and> primaryCount (images p') \<le> 1"
proof -
  from putPropertyImage_db [OF assms(1), of jwtVerify now c imageId bodyCaption primary]
  show ?thesis
  proof (elim disjE exE conjE)
    assume "snd (putPropertyImage jwtVerify now d c propertyId imageId bodyCaption primary) = d"
    with assms show ?thesis by simp
  next
    fix i imgs1
    assume f: "findIndex (\<lambda>img. image_id img = imageId) (images p0) = Some i"
      and i1: "imgs1 = (case bodyCaption of
                   None \<Rightarrow> images p0
                 | Some cap \<Rightarrow> (images p0)[i := (images p0 ! i)\<lparr>caption := Some cap\<rparr>])"
      and s: "snd (putPropertyImage jwtVerify now d c propertyId imageId bodyCaption primary) =
          d\<lparr>properties := (properties d)(propertyId \<mapsto>
               saveProperty now p0
                 (p0\<lparr>images :=
                    (if primary
                     then (map (\<lambda>img. img\<lparr>isPrimary := False\<rparr>) imgs1)
                            [i := (map (\<lambda>img. img\<lparr>isPrimary := False\<rparr>) imgs1 ! i)\<lparr>isPrimary := True\<rparr>]
                     else imgs1)\<rparr>))\<rparr>"
    from findIndex_Some [OF f] have i: "i < length (images p0)" by simp
    have len: "length imgs1 = length (images p0)"
      by (simp add: i1 split: option.split)
    have c1: "primaryCount imgs1 = primaryCount (images p0)"
    proof (cases bodyCaption)
      case None
      then show ?thesis by (simp add: i1)
    next
      case (Some cap)
      from primaryCount_update [OF i, of "(images p0 ! i)\<lparr>caption := Some cap\<rparr>"]
      show ?thesis by (simp add: i1 Some)
    qed
    let ?cl = "map (\<lambda>img. img\<lparr>isPrimary := False\<rparr>) imgs1"
    have "primaryCount (?cl[i := (?cl ! i)\<lparr>isPrimary := True\<rparr>]) \<le> 1"
      using primaryCount_update [of i ?cl "(?cl ! i)\<lparr>isPrimary := True\<rparr>"] i len
      by (simp add: primaryCount_cleared)
    then have "primaryCount (if primary then ?cl[i := (?cl ! i)\<lparr>isPrimary := True\<rparr>] else imgs1) \<le> 1"
      using c1 assms(2) by simp
    with s show ?thesis by (simp add: saveProperty_images)
  qed
qed

lemma delete_single_primary:
  assumes "properties d propertyId = Some p0" and "primaryCount (images p0) \<le> 1"
  shows "\<exists>p'. properties (fst (snd (deletePropertyImage jwtVerify destroyOk now d c propertyId
            imageId))) propertyId = Some p' \<and> primaryCount (images p') \<le> 1"
proof -
  from deletePropertyImage_db [OF assms(1), of jwtVerify destroyOk now c imageId]
  show ?thesis
  proof (elim disjE exE conjE)
    assume "fst (snd (deletePropertyImage jwtVerify destroyOk now d c propertyId imageId)) = d"
    with assms show ?thesis by simp
  next
    fix i spliced
    assume f: "findIndex (\<lambda>img. image_id img = imageId) (images p0) = Some i"
      and sp: "spliced = take i (images p0) @ drop (Suc i) (images p0)"
      and s: "fst (snd (deletePropertyImage jwtVerify destroyOk now d c propertyId imageId)) =
          d\<lparr>properties := (properties d)(propertyId \<mapsto>
               saveProperty now p0
                 (p0\<lparr>images :=
                    (if isPrimary (images p0 ! i) \<and> length spliced > 0
                     then (case spliced of [] \<Rightarrow> [] | x # xs \<Rightarrow> x\<lparr>isPrimary := True\<rparr> # xs)
                     else spliced)\<rparr>))\<rparr>"
    from findIndex_Some [OF f] have i: "i < length (images p0)" by simp
    note c = primaryCount_splice [OF i, folded sp]
    have "primaryCount (if isPrimary (images p0 ! i) \<and> length spliced > 0
                     then (case spliced of [] \<Rightarrow> [] | x # xs \<Rightarrow> x\<lparr>isPrimary := True\<rparr> # xs)
                     else spliced) \<le> 1"
    proof (cases "isPrimary (images p0 ! i) \<and> length spliced > 0")
      case True
      with c assms(2) have "primaryCount spliced = 0" "spliced \<noteq> []" by auto
      from promote_primaryCount(1) [OF this] True show ?thesis by simp
    next
      case False
      with c assms(2) show ?thesis by (auto split: if_splits)
    qed
    with s show ?thesis by (simp add: saveProperty_images)
  qed
qed

lemma image_handlers_frame:
  assumes "properties d propertyId = Some p0" and "k \<noteq> propertyId"
  shows "properties (snd (postPropertyImages jwtVerify now d c propertyId files captions newId)) k
           = properties d k"
    and "properties (snd (putPropertyImage jwtVerify now d c propertyId imageId bodyCaption
           primary)) k = properties d k"
    and "properties (fst (snd (deletePropertyImage jwtVerify destroyOk now d c propertyId
           imageId))) k = properties d k"
proof -
  from postPropertyImages_db [OF assms(1), of jwtVerify now c files captions newId] assms(2)
  show "properties (snd (postPropertyImages jwtVerify now d c propertyId files captions newId)) k
           = properties d k"
    by (elim disjE exE conjE) simp_all
  from putPropertyImage_db [OF assms(1), of jwtVerify now c imageId bodyCaption primary] assms(2)
  show "properties (snd (putPropertyImage jwtVerify now d c propertyId imageId bodyCaption
           primary)) k = properties d k"
    by (elim disjE exE conjE) simp_all
  from deletePropertyImage_db [OF assms(1), of jwtVerify destroyOk now c imageId] assms(2)
  show "properties (fst (snd (deletePropertyImage jwtVerify destroyOk now d c propertyId
           imageId))) k = properties d k"
    by (elim disjE exE conjE) simp_all
qed

lemma protect_Inl: "protect jwtVerify us c = Inl e \<Longrightarrow> fst e = 401"
  by (auto simp add: protect_def Let_def split: option.splits if_splits)

lemma deletePropertyImage_200:
  assumes "properties d propertyId = Some p0"
    and "findIndex (\<lambda>img. image_id img = imageId) (images p0) = Some i"
    and "httpStatus (fst (deletePropertyImage jwtVerify destroyOk now d c propertyId imageId)) = 200"
  shows "fst (snd (deletePropertyImage jwtVerify destroyOk now d c propertyId imageId)) =
     d\<lparr>properties := (properties d)(propertyId \<mapsto>
          saveProperty now p0
            (p0\<lparr>images :=
               (if isPrimary (images p0 ! i) \<and>
                   length (take i (images p0) @ drop (Suc i) (images p0)) > 0
                then (case take i (images p0) @ drop (Suc i) (images p0) of
                        [] \<Rightarrow> []
                      | x # xs \<Rightarrow> x\<lparr>isPrimary := True\<rparr> # xs)
                else take i (images p0) @ drop (Suc i) (images p0))\<rparr>))\<rparr>"
proof (cases "protect jwtVerify (users d) c")
  case (Inl e)
  with assms(3) protect_Inl [OF Inl] show ?thesis
    by (simp add: deletePropertyImage_def httpStatus_def)
next
  case (Inr ru)
  show ?thesis
  proof (cases "agent p0 \<noteq> user_id ru \<and> role (user_doc ru) \<noteq> ''admin''")
    case True
    with assms Inr show ?thesis
      by (simp add: deletePropertyImage_def httpStatus_def)
  next
    case False
    show ?thesis
      unfolding deletePropertyImage_def Let_def
      by (simp only: Inr assms(1,2) sum.case option.case if_not_P [OF False] fst_conv snd_conv)
  qed
qed

lemma delete_promotes:
  assumes "properties d propertyId = Some p0" and "primaryCount (images p0) \<le> 1"
    and "findIndex (\<lambda>img. image_id img = imageId) (images p0) = Some i"
    and "isPrimary (images p0 ! i)" and "1 < length (images p0)"
    and "httpStatus (fst (deletePropertyImage jwtVerify destroyOk now d c propertyId imageId)) = 200"
  shows "\<exists>p'. properties (fst (snd (deletePropertyImage jwtVerify destroyOk now d c propertyId
             imageId))) propertyId = Some p' \<and>
           primaryCount (images p') = 1 \<and> isPrimary (hd (images p')) \<and>
           length (images p') = length (images p0) - 1 \<and>
           images p' = (case take i (images p0) @ drop (Suc i) (images p0) of
                          [] \<Rightarrow> []
                        | x # xs \<Rightarrow> x\<lparr>isPrimary := True\<rparr> # xs)"
proof -
  let ?sp = "take i (images p0) @ drop (Suc i) (images p0)"
  let ?pr = "case ?sp of [] \<Rightarrow> [] | x # xs \<Rightarrow> x\<lparr>isPrimary := True\<rparr> # xs"
  from findIndex_Some [OF assms(3)] have i: "i < length (images p0)" by simp
  have len: "length ?sp = length (images p0) - 1" using i by simp
  then have ne: "?sp \<noteq> []" using assms(5) by (metis length_0_conv less_numeral_extra(3) zero_less_diff)
  have z: "primaryCount ?sp = 0"
    using primaryCount_splice [OF i] assms(2,4) by simp
  note pr = promote_primaryCount [OF z ne]
  have cond: "isPrimary (images p0 ! i) \<and> length ?sp > 0"
  proof
    show "isPrimary (images p0 ! i)" by (rule assms(4))
    show "length ?sp > 0" using ne by (simp only: length_greater_0_conv simp_thms)
  qed
  have db: "fst (snd (deletePropertyImage jwtVerify destroyOk now d c propertyId imageId)) =
     d\<lparr>properties := (properties d)(propertyId \<mapsto> saveProperty now p0 (p0\<lparr>images := ?pr\<rparr>))\<rparr>"
    by (simp only: deletePropertyImage_200 [OF assms(1,3,6)] if_P [OF cond])
  show ?thesis
    apply (rule exI [of _ "saveProperty now p0 (p0\<lparr>images := ?pr\<rparr>)"])
    apply (simp only: db saveProperty_images)
    using pr len apply simp
    done
qed

text \<open>
  C7. If the image list of a property has at most one image flagged primary, it still has
  at most one after an upload of images, after an update of one of its images, and after
  the deletion of one of its images, whatever the response; no other property is
  changed. When the deleted image is the primary one and other images remain, the
  first remaining image is flagged and it is the only primary image.
\<close>

theorem image_operations_single_primary:
  assumes "properties d propertyId = Some p0" and "primaryCount (images p0) \<le> 1"
  shows "(\<exists>p'. properties (snd (postPropertyImages jwtVerify now d c propertyId files captions
                  newId)) propertyId = Some p' \<and> primaryCount (images p') \<le> 1) \<and>
         (\<exists>p'. properties (snd (putPropertyImage jwtVerify now d c propertyId imageId
                  bodyCaption primary)) propertyId = Some p' \<and> primaryCount (images p') \<le> 1) \<and>
         (\<exists>p'. properties (fst (snd (deletePropertyImage jwtVerify destroyOk now d c propertyId
                  imageId))) propertyId = Some p' \<and> primaryCount (images p') \<le> 1) \<and>
         (\<forall>k. k \<noteq> propertyId \<longrightarrow>
            properties (snd (postPropertyImages jwtVerify now d c propertyId files captions
              newId)) k = properties d k \<and>
            properties (snd (putPropertyImage jwtVerify now d c propertyId imageId bodyCaption
              primary)) k = properties d k \<and>
            properties (fst (snd (deletePropertyImage jwtVerify destroyOk now d c propertyId
              imageId))) k = properties d k) \<and>
         (\<forall>i. findIndex (\<lambda>img. image_id img = imageId) (images p0) = Some i \<and>
              isPrimary (images p0 ! i) \<and> 1 < length (images p0) \<and>
              httpStatus (fst (deletePropertyImage jwtVerify destroyOk now d c propertyId
                imageId)) = 200 \<longrightarrow>
            (\<exists>p'. properties (fst (snd (deletePropertyImage jwtVerify destroyOk now d c propertyId
                      imageId))) propertyId = Some p' \<and>
                   primaryCount (images p') = 1 \<and> isPrimary (hd (images p')) \<and>
                   length (images p') = length (images p0) - 1 \<and>
                   images p' = (case take i (images p0) @ drop (Suc i) (images p0) of
                                  [] \<Rightarrow> []
                                | x # xs \<Rightarrow> x\<lparr>isPrimary := True\<rparr> # xs)))"
  apply (intro conjI allI impI)
        apply (rule post_single_primary [OF assms])
       apply (rule put_single_primary [OF assms])
      apply (rule delete_single_primary [OF assms])
     apply (erule image_handlers_frame(1) [OF assms(1)])
    apply (erule image_handlers_frame(2) [OF assms(1)])
   apply (erule image_handlers_frame(3) [OF assms(1)])
  apply (elim conjE)
  apply (rule delete_promotes [OF assms]; assumption)
  done

section \<open>Deletion of an image when the media host fails\<close>

lemma deletePropertyImage_run:
  assumes "protect jwtVerify (users d) c = Inr ru"
    and "properties d propertyId = Some p0"
    and "agent p0 = user_id ru \<or> role (user_doc ru) = ''admin''"
    and "findIndex (\<lambda>img. image_id img = imageId) (images p0) = Some i"
  shows "deletePropertyImage jwtVerify destroyOk now d c propertyId imageId =
     (Inr (length (if isPrimary (images p0 ! i) \<and>
                      length (take i (images p0) @ drop (Suc i) (images p0)) > 0
                   then (case take i (images p0) @ drop (Suc i) (images p0) of
                           [] \<Rightarrow> []
                         | x # xs \<Rightarrow> x\<lparr>isPrimary := True\<rparr> # xs)
                   else take i (images p0) @ drop (Suc i) (images p0))),
      d\<lparr>properties := (properties d)(propertyId \<mapsto>
          saveProperty now p0
            (p0\<lparr>images :=
               (if isPrimary (images p0 ! i) \<and>
                   length (take i (images p0) @ drop (Suc i) (images p0)) > 0
                then (case take i (images p0) @ drop (Suc i) (images p0) of
                        [] \<Rightarrow> []
                      | x # xs \<Rightarrow> x\<lparr>isPrimary := True\<rparr> # xs)
                else take i (images p0) @ drop (Suc i) (images p0))\<rparr>))\<rparr>,
      CloudinaryDestroy (public_id (images p0 ! i)) #
      (if destroyOk (public_id (images p0 ! i)) then []
       else [ConsoleError ''Error deleting from Cloudinary:'']))"
proof -
  have nc: "\<not> (agent p0 \<noteq> user_id ru \<and> role (user_doc ru) \<noteq> ''admin'')"
    using assms(3) by blast
  have im: "images (saveProperty now p0 (p0\<lparr>images := imgs\<rparr>)) = imgs" for imgs
    by (simp add: saveProperty_images)
  show ?thesis
    unfolding deletePropertyImage_def Let_def
    by (simp only: assms(1,2,4) sum.case option.case if_not_P [OF nc] im)
qed

lemma promote_ids:
  "map image_id (case sp of [] \<Rightarrow> [] | x # xs \<Rightarrow> x\<lparr>isPrimary := True\<rparr> # xs) = map image_id sp"
  by (cases sp) simp_all

text \<open>
  C9. When the media host's deletion fails for the image of an authorised request, the
  handler still answers success with the number of remaining images, the image is removed
  from the property's stored list, the failure is logged once, and the media host was
  called exactly once; the response and the database are those of the same request with
  a media host that succeeds.
\<close>

theorem deletePropertyImage_media_failure_swallowed:
  assumes "protect jwtVerify (users d) c = Inr ru"
    and "properties d propertyId = Some p0"
    and "agent p0 = user_id ru \<or> role (user_doc ru) = ''admin''"
    and "findIndex (\<lambda>img. image_id img = imageId) (images p0) = Some i"
    and "\<not> destroyOk (public_id (images p0 ! i))"
  shows "\<exists>p'. deletePropertyImage jwtVerify destroyOk now d c propertyId imageId =
            (Inr (length (images p')),
             d\<lparr>properties := (properties d)(propertyId \<mapsto> p')\<rparr>,
             [CloudinaryDestroy (public_id (images p0 ! i)),
              ConsoleError ''Error deleting from Cloudinary:'']) \<and>
           map image_id (images p') =
             map image_id (take i (images p0) @ drop (Suc i) (images p0)) \<and>
           length (images p') = length (images p0) - 1 \<and>
           fst (deletePropertyImage jwtVerify destroyOk now d c propertyId imageId) =
             fst (deletePropertyImage jwtVerify (\<lambda>pid. True) now d c propertyId imageId) \<and>
           fst (snd (deletePropertyImage jwtVerify destroyOk now d c propertyId imageId)) =
             fst (snd (deletePropertyImage jwtVerify (\<lambda>pid. True) now d c propertyId imageId))"
proof -
  let ?sp = "take i (images p0) @ drop (Suc i) (images p0)"
  let ?R = "if isPrimary (images p0 ! i) \<and> length ?sp > 0
            then (case ?sp of [] \<Rightarrow> [] | x # xs \<Rightarrow> x\<lparr>isPrimary := True\<rparr> # xs) else ?sp"
  let ?p = "saveProperty now p0 (p0\<lparr>images := ?R\<rparr>)"
  from findIndex_Some [OF assms(4)] have i: "i < length (images p0)" by simp
  have im: "images ?p = ?R" by (simp only: saveProperty_images) simp
  have ids: "map image_id ?R = map image_id ?sp"
    by (simp only: promote_ids if_distrib [of "map image_id"] if_cancel)
  have len: "length ?sp = length (images p0) - 1" using i by simp
  have lenR: "length ?R = length ?sp"
    using arg_cong [OF ids, of length] by (simp only: length_map)
  have "length (images ?p) = length ?R" by (rule arg_cong [OF im])
  also have "\<dots> = length ?sp" by (rule lenR)
  also have "\<dots> = length (images p0) - 1" by (rule len)
  finally have l2: "length (images ?p) = length (images p0) - 1" .
  note run = deletePropertyImage_run [OF assms(1-4), of destroyOk now]
  note run' = deletePropertyImage_run [OF assms(1-4), of "\<lambda>pid. True" now]
  have a: "deletePropertyImage jwtVerify destroyOk now d c propertyId imageId =
            (Inr (length (images ?p)),
             d\<lparr>properties := (properties d)(propertyId \<mapsto> ?p)\<rparr>,
             [CloudinaryDestroy (public_id (images p0 ! i)),
              ConsoleError ''Error deleting from Cloudinary:''])"
    by (simp only: run im if_not_P [OF assms(5)])
  have b: "fst (deletePropertyImage jwtVerify destroyOk now d c propertyId imageId) =
             fst (deletePropertyImage jwtVerify (\<lambda>pid. True) now d c propertyId imageId)"
    by (simp only: run run' fst_conv)
  have c: "fst (snd (deletePropertyImage jwtVerify destroyOk now d c propertyId imageId)) =
             fst (snd (deletePropertyImage jwtVerify (\<lambda>pid. True) now d c propertyId imageId))"
    by (simp only: run run' fst_conv snd_conv)
  show ?thesis
    apply (rule exI [of _ ?p])
    apply (intro conjI)
        apply (rule a)
       apply (simp only: im ids)
      apply (rule l2)
     apply (rule b)
    apply (rule c)
    done
qed

lemma demoImages_simps:
  "findIndex (\<lambda>img. image_id img = ''i1'') (images demoProperty) = Some 0"
  "findIndex (\<lambda>img. image_id img = ''i2'') (images demoProperty) = Some 1"
  "isPrimary (images demoProperty ! 0)"
  "public_id (images demoProperty ! 1) = ''properties/two''"
  "length (images demoProperty) = 3"
  "primaryCount (images demoProperty) = 1"
  "map image_id (take 1 (images demoProperty) @ drop (Suc 1) (images demoProperty)) = [''i1'', ''i3'']"
  "take 0 (images demoProperty) @ drop (Suc 0) (images demoProperty) =
     [\<lparr>image_id = ''i2'', public_id = ''properties/two'', url = ''https://img/two'',
       caption = None, isPrimary = False\<rparr>,
      \<lparr>image_id = ''i3'', public_id = ''properties/three'', url = ''https://img/three'',
       caption = Some ''Garden'', isPrimary = False\<rparr>]"
  by (simp_all add: demoProperty_simps demoImages_def primaryCount_def)

theorem deletePropertyImage_media_failure_swallowed_witness:
  "protect demoVerify (users demoDb) (bearer ''agent-token'')
     = Inr \<lparr>user_id = ''a1'', user_doc = newUser ''Asha'' ''agent'' True\<rparr> \<and>
   properties demoDb ''p1'' = Some demoProperty \<and>
   agent demoProperty = ''a1'' \<and>
   findIndex (\<lambda>img. image_id img = ''i2'') (images demoProperty) = Some 1 \<and>
   (\<exists>p'. deletePropertyImage demoVerify (\<lambda>pid. False) 3000 demoDb (bearer ''agent-token'')
            ''p1'' ''i2'' =
            (Inr (length (images p')),
             demoDb\<lparr>properties := (properties demoDb)(''p1'' \<mapsto> p')\<rparr>,
             [CloudinaryDestroy ''properties/two'',
              ConsoleError ''Error deleting from Cloudinary:'']) \<and>
          map image_id (images p') = [''i1'', ''i3''] \<and>
          length (images p') = 2)"
proof -
  let ?ru = "\<lparr>user_id = ''a1'', user_doc = newUser ''Asha'' ''agent'' True\<rparr>"
  have o: "agent demoProperty = user_id ?ru \<or> role (user_doc ?ru) = ''admin''"
    by (simp add: demoProperty_simps)
  have f: "\<not> (\<lambda>pid. False) (public_id (images demoProperty ! 1))" by simp
  have l: "length (images demoProperty) - 1 = 2" by (simp add: demoImages_simps)
  note t = deletePropertyImage_media_failure_swallowed
    [OF protect_demo(1) demoProperty_simps(1) o demoImages_simps(2) f, where now = 3000,
     unfolded demoImages_simps(4) demoImages_simps(7) l]
  from t obtain p' where p': "deletePropertyImage demoVerify (\<lambda>pid. False) 3000 demoDb
        (bearer ''agent-token'') ''p1'' ''i2'' =
            (Inr (length (images p')),
             demoDb\<lparr>properties := (properties demoDb)(''p1'' \<mapsto> p')\<rparr>,
             [CloudinaryDestroy ''properties/two'',
              ConsoleError ''Error deleting from Cloudinary:''])"
      "map image_id (images p') = [''i1'', ''i3'']"
      "length (images p') = 2"
    by (elim exE conjE)
  have e: "\<exists>p'. deletePropertyImage demoVerify (\<lambda>pid. False) 3000 demoDb
        (bearer ''agent-token'') ''p1'' ''i2'' =
            (Inr (length (images p')),
             demoDb\<lparr>properties := (properties demoDb)(''p1'' \<mapsto> p')\<rparr>,
             [CloudinaryDestroy ''properties/two'',
              ConsoleError ''Error deleting from Cloudinary:'']) \<and>
          map image_id (images p') = [''i1'', ''i3''] \<and>
          length (images p') = 2"
    by (rule exI [of _ p'], intro conjI) (rule p')+
  from protect_demo(1) demoProperty_simps(1,2) demoImages_simps(2) e
  show ?thesis by (intro conjI)
qed

theorem image_operations_single_primary_witness:
  "properties demoDb ''p1'' = Some demoProperty \<and>
   primaryCount (images demoProperty) \<le> 1 \<and>
   findIndex (\<lambda>img. image_id img = ''i1'') (images demoProperty) = Some 0 \<and>
   isPrimary (images demoProperty ! 0) \<and>
   1 < length (images demoProperty) \<and>
   httpStatus (fst (deletePropertyImage demoVerify (\<lambda>pid. True) 3000 demoDb
                      (bearer ''agent-token'') ''p1'' ''i1'')) = 200 \<and>
   (\<exists>p'. properties (fst (snd (deletePropertyImage demoVerify (\<lambda>pid. True) 3000 demoDb
                                  (bearer ''agent-token'') ''p1'' ''i1''))) ''p1'' = Some p' \<and>
          primaryCount (images p') = 1 \<and>
          images p' =
            [\<lparr>image_id = ''i2'', public_id = ''properties/two'', url = ''https://img/two'',
              caption = None, isPrimary = True\<rparr>,
             \<lparr>image_id = ''i3'', public_id = ''properties/three'', url = ''https://img/three'',
              caption = Some ''Garden'', isPrimary = False\<rparr>]) \<and>
   (\<exists>p'. properties (snd (postPropertyImages demoVerify 3000 demoDb (bearer ''agent-token'')
                            ''p1'' [Some (''properties/four'', ''https://img/four'')] None
                            (\<lambda>n. ''i4''))) ''p1'' = Some p' \<and>
          primaryCount (images p') \<le> 1) \<and>
   (\<exists>p'. properties (snd (putPropertyImage demoVerify 3000 demoDb (bearer ''agent-token'')
                            ''p1'' ''i3'' None True)) ''p1'' = Some p' \<and>
          primaryCount (images p') \<le> 1)"
proof -
  let ?ru = "\<lparr>user_id = ''a1'', user_doc = newUser ''Asha'' ''agent'' True\<rparr>"
  have o: "agent demoProperty = user_id ?ru \<or> role (user_doc ?ru) = ''admin''"
    by (simp add: demoProperty_simps)
  have h2: "primaryCount (images demoProperty) \<le> 1" by (simp add: demoImages_simps)
  have h5: "1 < length (images demoProperty)" by (simp add: demoImages_simps)
  have ok: "httpStatus (fst (deletePropertyImage demoVerify (\<lambda>pid. True) 3000 demoDb
                      (bearer ''agent-token'') ''p1'' ''i1'')) = 200"
    by (simp only: deletePropertyImage_run [OF protect_demo(1) demoProperty_simps(1) o
          demoImages_simps(1)] fst_conv httpStatus_def sum.case)
  note t = image_operations_single_primary [OF demoProperty_simps(1) h2,
      where jwtVerify = demoVerify and now = 3000 and c = "bearer ''agent-token''"]
  have prem: "findIndex (\<lambda>img. image_id img = ''i1'') (images demoProperty) = Some 0 \<and>
      isPrimary (images demoProperty ! 0) \<and> 1 < length (images demoProperty) \<and>
      httpStatus (fst (deletePropertyImage demoVerify (\<lambda>pid. True) 3000 demoDb
                      (bearer ''agent-token'') ''p1'' ''i1'')) = 200"
    using demoImages_simps(1,3) h5 ok by (intro conjI)
  note e = t [where imageId = "''i1''" and destroyOk = "\<lambda>pid. True",
      THEN conjunct2, THEN conjunct2, THEN conjunct2, THEN conjunct2, THEN spec, of 0,
      THEN mp, OF prem, unfolded demoImages_simps(8) list.case]
  from e obtain p' where p': "properties (fst (snd (deletePropertyImage demoVerify (\<lambda>pid. True)
        3000 demoDb (bearer ''agent-token'') ''p1'' ''i1''))) ''p1'' = Some p'"
      "primaryCount (images p') = 1"
      "images p' =
            [\<lparr>image_id = ''i2'', public_id = ''properties/two'', url = ''https://img/two'',
              caption = None, isPrimary = True\<rparr>,
             \<lparr>image_id = ''i3'', public_id = ''properties/three'', url = ''https://img/three'',
              caption = Some ''Garden'', isPrimary = False\<rparr>]"
    by (elim exE conjE) simp
  have del: "\<exists>p'. properties (fst (snd (deletePropertyImage demoVerify (\<lambda>pid. True) 3000
        demoDb (bearer ''agent-token'') ''p1'' ''i1''))) ''p1'' = Some p' \<and>
          primaryCount (images p') = 1 \<and>
          images p' =
            [\<lparr>image_id = ''i2'', public_id = ''properties/two'', url = ''https://img/two'',
              caption = None, isPrimary = True\<rparr>,
             \<lparr>image_id = ''i3'', public_id = ''properties/three'', url = ''https://img/three'',
              caption = Some ''Garden'', isPrimary = False\<rparr>]"
    by (rule exI [of _ p'], intro conjI) (rule p')+
  note post = t [where files = "[Some (''properties/four'', ''https://img/four'')]"
      and captions = None and newId = "\<lambda>n. ''i4''", THEN conjunct1]
  note put = t [where imageId = "''i3''" and bodyCaption = None and primary = True,
      THEN conjunct2, THEN conjunct1]
  from demoProperty_simps(1) h2 demoImages_simps(1,3) h5 ok del post put
  show ?thesis by (intro conjI)
qed

section \<open>Rating an agent\<close>

lemma protect_Inr:
  assumes "protect jwtVerify us c = Inr ru"
  shows "us (user_id ru) = Some (user_doc ru)" and "isActive (user_doc ru)"
  using assms
  by (auto simp add: protect_def Let_def split: option.splits if_splits)

lemma castObjectId_examples:
  "castObjectId ''64A1B2C3D4E5F6A7B8C9D0E1'' = Some ''64a1b2c3d4e5f6a7b8c9d0e1''"
  "castObjectId ''64a1b2c3d4e5f6a7b8c9d0e1'' = Some ''64a1b2c3d4e5f6a7b8c9d0e1''"
  by (simp_all add: castObjectId_def isHexDigit_def digitValue_def lowerHex_def)

lemma protect_rate:
  "protect rateVerify (users rateDb) (bearer ''agent-token'')
     = Inr \<lparr>user_id = ''64a1b2c3d4e5f6a7b8c9d0e1'', user_doc = newUser ''Asha'' ''agent'' True\<rparr>"
  by (simp add: protect_def requestToken_bearer truthy_def rateVerify_def rateDb_def newUser_simps)

lemma updateRating_first:
  "updateRating now (newUser ''Asha'' ''agent'' True) 5
     = Inr ((newUser ''Asha'' ''agent'' True)
              \<lparr>agentProfile := (agentProfile (newUser ''Asha'' ''agent'' True))
                 \<lparr>rating := \<lparr>average = 5, count = 1\<rparr>\<rparr>,
               userUpdatedAt := now\<rparr>)"
  by (simp add: updateRating_unfold newUser_def validateUser_def Let_def fl_0 fl_numeral)

text \<open>
  C8. The check against self-rating compares the caller's id with the path parameter as
  strings, after the lookup has cast the path parameter to an identifier. The agent whose
  id is \<open>64a1b2c3d4e5f6a7b8c9d0e1\<close> and who names that identifier in upper case in the
  path is found as the agent to rate, passes the check and is answered 200, and the
  rating of their own document becomes average 5, count 1. With the identifier written
  as it is stored, the same request is answered 400 and changes nothing.
\<close>

theorem rateAgent_self_rating_accepted:
  "rateAgent rateVerify 7 rateDb (bearer ''agent-token'') ''64A1B2C3D4E5F6A7B8C9D0E1''
       (Some 5) None
     = (Inr (),
        rateDb\<lparr>users := [''64a1b2c3d4e5f6a7b8c9d0e1'' \<mapsto>
           (newUser ''Asha'' ''agent'' True)
             \<lparr>agentProfile := (agentProfile (newUser ''Asha'' ''agent'' True))
                \<lparr>rating := \<lparr>average = 5, count = 1\<rparr>\<rparr>,
              userUpdatedAt := 7\<rparr>]\<rparr>) \<and>
   rateAgent rateVerify 7 rateDb (bearer ''agent-token'') ''64a1b2c3d4e5f6a7b8c9d0e1''
       (Some 5) None
     = (Inl (400, ''You cannot rate yourself''), rateDb)"
proof -
  have v: "rateValidators (Some 5) None" by (simp add: rateValidators_def optional_def)
  have u: "users rateDb ''64a1b2c3d4e5f6a7b8c9d0e1'' = Some (newUser ''Asha'' ''agent'' True)"
    by (simp add: rateDb_def)
  have a: "rateAgent rateVerify 7 rateDb (bearer ''agent-token'') ''64A1B2C3D4E5F6A7B8C9D0E1''
       (Some 5) None
     = (Inr (),
        rateDb\<lparr>users := [''64a1b2c3d4e5f6a7b8c9d0e1'' \<mapsto>
           (newUser ''Asha'' ''agent'' True)
             \<lparr>agentProfile := (agentProfile (newUser ''Asha'' ''agent'' True))
                \<lparr>rating := \<lparr>average = 5, count = 1\<rparr>\<rparr>,
              userUpdatedAt := 7\<rparr>]\<rparr>)"
    by (simp add: rateAgent_def protect_rate v castObjectId_examples u newUser_simps
        updateRating_first) (simp add: rateDb_def)
  have b: "rateAgent rateVerify 7 rateDb (bearer ''agent-token'') ''64a1b2c3d4e5f6a7b8c9d0e1''
       (Some 5) None
     = (Inl (400, ''You cannot rate yourself''), rateDb)"
    by (simp add: rateAgent_def protect_rate v castObjectId_examples u newUser_simps)
  from a b show ?thesis by (rule conjI)
qed

text \<open>
  A rate request whose path parameter is the caller's id, character for character, is
  refused and leaves the database unchanged: with 400 by the validators or by the
  self-rating check, with 404 when the caller is no agent, and with 500 when the id is no
  identifier.
\<close>

theorem rateAgent_same_string_refused:
  assumes "protect jwtVerify (users d) c = Inr ru" and "agentId = user_id ru"
  shows "snd (rateAgent jwtVerify now d c agentId bodyRating bodyComment) = d \<and>
         httpStatus (fst (rateAgent jwtVerify now d c agentId bodyRating bodyComment))
           \<in> set [400, 404, 500]"
  using assms
  by (simp add: rateAgent_def httpStatus_def serverError_def split: option.splits)

theorem rateAgent_same_string_refused_witness:
  "protect rateVerify (users rateDb) (bearer ''agent-token'')
     = Inr \<lparr>user_id = ''64a1b2c3d4e5f6a7b8c9d0e1'', user_doc = newUser ''Asha'' ''agent'' True\<rparr> \<and>
   snd (rateAgent rateVerify 7 rateDb (bearer ''agent-token'') ''64a1b2c3d4e5f6a7b8c9d0e1''
          (Some 5) None) = rateDb \<and>
   httpStatus (fst (rateAgent rateVerify 7 rateDb (bearer ''agent-token'')
                      ''64a1b2c3d4e5f6a7b8c9d0e1'' (Some 5) None)) \<in> set [400, 404, 500]"
proof -
  let ?ru = "\<lparr>user_id = ''64a1b2c3d4e5f6a7b8c9d0e1'', user_doc = newUser ''Asha'' ''agent'' True\<rparr>"
  have i: "''64a1b2c3d4e5f6a7b8c9d0e1'' = user_id ?ru" by simp
  note t = rateAgent_same_string_refused [OF protect_rate i, where now = 7
      and bodyRating = "Some 5" and bodyComment = None]
  from protect_rate t show ?thesis by (simp only: simp_thms)
qed

section \<open>Fetching a property\<close>







section \<open>Listings that declare validators\<close>

text \<open>
  On the public property listing a page or a size that is given and is out of bounds
  (page below 1, size outside 1 to 50, or no integer) is answered 400; the validators of
  the agent listing refuse the same requests.
\<close>

theorem listings_reject_out_of_bounds:
  assumes "(case q ''page'' of None \<Rightarrow> False | Some s \<Rightarrow> \<not> isInt (Some 1) None s) \<or>
           (case q ''limit'' of None \<Rightarrow> False | Some s \<Rightarrow> \<not> isInt (Some 1) (Some 50) s)"
  shows "getProperties isFloat validPattern findDocs q = Inl (400, ''Validation errors'') \<and>
         \<not> agentsValidators isFloat q"
proof -
  have "\<not> (optional (q ''page'') (isInt (Some 1) None) \<and>
            optional (q ''limit'') (isInt (Some 1) (Some 50)))"
    using assms by (cases "q ''page''"; cases "q ''limit''") (simp_all add: optional_def)
  then have "\<not> agentsValidators isFloat q"
    unfolding agentsValidators_def by blast
  with getProperties_rejects [OF assms] show ?thesis by blast
qed

theorem listings_reject_out_of_bounds_witness:
  "\<not> isInt (Some 1) None ''0'' \<and> \<not> isInt (Some 1) (Some 50) ''100'' \<and>
   getProperties (\<lambda>lo hi s. True) (\<lambda>s. True) (\<lambda>f s. [1, 2, 3 :: nat]) [''page'' \<mapsto> ''0'']
     = Inl (400, ''Validation errors'') \<and>
   getProperties (\<lambda>lo hi s. True) (\<lambda>s. True) (\<lambda>f s. [1, 2, 3 :: nat]) [''limit'' \<mapsto> ''100'']
     = Inl (400, ''Validation errors'')"
proof -
  have a: "(case [''page'' \<mapsto> ''0''] ''page'' of None \<Rightarrow> False
            | Some s \<Rightarrow> \<not> isInt (Some 1) None s) \<or>
           (case [''page'' \<mapsto> ''0''] ''limit'' of None \<Rightarrow> False
            | Some s \<Rightarrow> \<not> isInt (Some 1) (Some 50) s)"
    by (simp add: isInt_examples)
  have b: "(case [''limit'' \<mapsto> ''100''] ''page'' of None \<Rightarrow> False
            | Some s \<Rightarrow> \<not> isInt (Some 1) None s) \<or>
           (case [''limit'' \<mapsto> ''100''] ''limit'' of None \<Rightarrow> False
            | Some s \<Rightarrow> \<not> isInt (Some 1) (Some 50) s)"
    by (simp add: isInt_examples)
  note ta = listings_reject_out_of_bounds [where q = "[''page'' \<mapsto> ''0'']"
        and isFloat = "\<lambda>lo hi s. True" and validPattern = "\<lambda>s. True"
        and findDocs = "\<lambda>f s. [1, 2, 3 :: nat]", OF a, THEN conjunct1]
  note tb = listings_reject_out_of_bounds [where q = "[''limit'' \<mapsto> ''100'']"
        and isFloat = "\<lambda>lo hi s. True" and validPattern = "\<lambda>s. True"
        and findDocs = "\<lambda>f s. [1, 2, 3 :: nat]", OF b, THEN conjunct1]
  from isInt_examples(3,4) ta tb show ?thesis by (intro conjI)
qed

end
